theory Spec2Isabelle
  imports Complex_Main "HOL-Library.AList"
begin

section \<open>Store provisioning platform: controller and request layer\<close>

text \<open>
  A shallow embedding of \<^verbatim>\<open>src/controller/operator.py\<close> (the reconciliation
  controller) and \<^verbatim>\<open>src/apps/api/main.py\<close> (the request layer). Both programs
  talk to a cluster through a client library; the cluster, the installer subprocess, the
  clocks, the random source and the provisioning semaphore form the \<open>world\<close> that every
  operation takes and returns. An exception is a value: an operation returns
  \<open>Inl e\<close> where the Python raises \<open>e\<close>.
\<close>

subsection \<open>Settings read from the environment\<close>

text \<open>
  The module-level settings of the controller are read with \<^verbatim>\<open>os.getenv\<close>; the
  record holds one field per setting and \<open>default_config\<close> the defaults of the source.
\<close>

record config =
  PLATFORM_NAMESPACE :: string
  BASE_DOMAIN :: string
  URL_SCHEME :: string
  INGRESS_CLASS :: string
  STORE_NS_PREFIX :: string
  STORAGE_CLASS :: string
  MAX_PROVISION_SECONDS :: int
  MAX_CONCURRENT_PROVISIONS :: int
  MAX_STATUS_EVENTS :: int
  HELM_BIN :: string
  CHART_WOOCOMMERCE :: string
  CHART_MEDUSA :: string
  ADMIN_SECRET_NAME :: string

definition default_config :: config where
  "default_config =
     \<lparr> PLATFORM_NAMESPACE = ''store-platform'',
       BASE_DOMAIN = ''127.0.0.1.nip.io'',
       URL_SCHEME = ''http'',
       INGRESS_CLASS = ''nginx'',
       STORE_NS_PREFIX = ''store-'',
       STORAGE_CLASS = '''',
       MAX_PROVISION_SECONDS = 900,
       MAX_CONCURRENT_PROVISIONS = 2,
       MAX_STATUS_EVENTS = 20,
       HELM_BIN = ''helm'',
       CHART_WOOCOMMERCE = ''/charts/woocommerce'',
       CHART_MEDUSA = ''/charts/medusa'',
       ADMIN_SECRET_NAME = ''store-admin'' \<rparr>"

definition FINALIZER :: string where
  "FINALIZER = ''stores.urumi.ai/finalizer''"

definition STORE_MANAGED_LABEL :: string where
  "STORE_MANAGED_LABEL = ''urumi.ai/managed-store''"

definition STORE_ID_LABEL :: string where
  "STORE_ID_LABEL = ''urumi.ai/storeId''"

subsection \<open>Exceptions\<close>

text \<open>
  \<open>ApiException\<close> carries the HTTP status the code branches on, the reason the request
  layer prints, and the text \<^verbatim>\<open>str(e)\<close> gives. \<open>TemporaryError\<close> carries its
  delay. \<open>OtherException\<close> stands for any other subclass of \<^verbatim>\<open>Exception\<close>
  (a subprocess timeout, a decoding error) with its text.
\<close>

datatype exn =
    ApiException nat string string
  | RuntimeError string
  | PermanentError string
  | TemporaryError string int
  | HTTPException nat string
  | ValueError string
  | ValidationError string
  | OtherException string

fun str_exn :: "exn \<Rightarrow> string" where
  "str_exn (ApiException st reason txt) = txt"
| "str_exn (RuntimeError m) = m"
| "str_exn (PermanentError m) = m"
| "str_exn (TemporaryError m d) = m"
| "str_exn (HTTPException st m) = m"
| "str_exn (ValueError m) = m"
| "str_exn (ValidationError m) = m"
| "str_exn (OtherException m) = m"

definition not_found :: exn where
  "not_found = ApiException 404 ''Not Found'' ''(404) Reason: Not Found''"

definition conflict :: exn where
  "conflict = ApiException 409 ''Conflict'' ''(409) Reason: Conflict''"

subsection \<open>The objects of the cluster\<close>

datatype event = Event (ev_type: string) (ev_message: string) (ev_timestamp: string)

datatype jval = JStr string | JInt int | JEvents "event list"

record requested_by =
  rb_ip :: "string option"
  rb_userAgent :: "string option"

record store_spec =
  sp_engine :: "string option"
  sp_storeId :: "string option"
  sp_requestedBy :: "requested_by option"

text \<open>
  A Store resource of the platform namespace. An absent \<open>status\<close> is the empty map and
  absent \<open>finalizers\<close> the empty list, as the code reads them
  (\<^verbatim>\<open>obj.get("status", {}) or {}\<close>).
\<close>

record store_obj =
  so_name :: string
  so_finalizers :: "string list"
  so_deletionTimestamp :: "string option"
  so_creationTimestamp :: "string option"
  so_spec :: store_spec
  so_status :: "string \<rightharpoonup> jval"

text \<open>The metadata the watch framework hands to a handler.\<close>

record meta =
  m_generation :: "int option"
  m_deletionTimestamp :: "string option"

text \<open>
  A value of a secret as \<^verbatim>\<open>base64.b64decode(v).decode("utf-8")\<close> sees it: bytes
  that decode to a text, or bytes that do not decode.
\<close>

datatype secret_val = Text string | Binary string

datatype kind = ResourceQuota | LimitRange | NetworkPolicy

text \<open>The result of the installer subprocess.\<close>

record proc =
  returncode :: int
  stdout :: string
  stderr :: string

text \<open>What the program does to the outside, in order.\<close>

datatype call =
    GetStore string
  | PatchStoreStatus string
  | PatchStoreFinalizers string "string list"
  | ListStores
  | CreateStore string
  | ReadNamespace string
  | PatchNamespace string
  | CreateNamespace string
  | DeleteNamespace string
  | ReadSecret string string
  | CreateSecret string string
  | PatchSecret string string
  | CreateObject kind string string
  | PatchObject kind string string
  | SubprocessRun "string list" int
  | SemAcquire int bool
  | SemRelease
  | LogInfo string
  | LogWarning string

subsection \<open>The world\<close>

text \<open>
  \<^item> \<open>stores\<close>: the Store resources of the platform namespace, by name;
  \<^item> \<open>namespaces\<close>: the labels of each namespace that exists;
  \<^item> \<open>secrets\<close>: the data of each secret, by namespace and name;
  \<^item> \<open>objects\<close>: the quotas, limit ranges and network policies that exist;
  \<^item> \<open>sem_value\<close>: the free permits of the provisioning semaphore;
  \<^item> \<open>faults\<close>: what the cluster and the subprocess layer answer to the coming calls,
    one entry a call: \<open>Some e\<close> raises \<open>e\<close>, \<open>None\<close> (and the exhausted list) answers
    from the state. A script lets a call fail for reasons outside the state (an
    unreachable server, a concurrent writer);
  \<^item> \<open>procs\<close>: the results of the coming installer runs (an exhausted list: exit code 0,
    no output);
  \<^item> \<open>now_readings\<close>, \<open>now_count\<close>: the readings of the UTC clock, and how many were taken;
  \<^item> \<open>rng\<close>, \<open>rng_count\<close>: the draws of the random source;
  \<^item> \<open>time_readings\<close>, \<open>time_count\<close>, \<open>ip_create_requests\<close>: the clock and the
    rate-limit buckets of the request layer;
  \<^item> \<open>calls\<close>: the trace of everything done so far.
\<close>

record world =
  stores :: "(string \<times> store_obj) list"
  namespaces :: "string \<rightharpoonup> (string \<rightharpoonup> string)"
  secrets :: "string \<times> string \<rightharpoonup> (string \<rightharpoonup> secret_val)"
  objects :: "(kind \<times> string \<times> string) set"
  sem_value :: nat
  faults :: "exn option list"
  procs :: "proc list"
  now_readings :: "nat \<Rightarrow> string"
  now_count :: nat
  rng :: "nat \<Rightarrow> nat"
  rng_count :: nat
  time_readings :: "nat \<Rightarrow> real"
  time_count :: nat
  ip_create_requests :: "string \<rightharpoonup> real list"
  calls :: "call list"

type_synonym 'a io = "world \<Rightarrow> (exn + 'a) \<times> world"

definition return_io :: "'a \<Rightarrow> 'a io" where
  "return_io x = (\<lambda>w. (Inr x, w))"

definition raise_io :: "exn \<Rightarrow> 'a io" where
  "raise_io e = (\<lambda>w. (Inl e, w))"

definition bind_io :: "'a io \<Rightarrow> ('a \<Rightarrow> 'b io) \<Rightarrow> 'b io" where
  "bind_io m f = (\<lambda>w. case m w of (Inl e, w') \<Rightarrow> (Inl e, w') | (Inr x, w') \<Rightarrow> f x w')"

definition seq_io :: "unit io \<Rightarrow> 'b io \<Rightarrow> 'b io" where
  "seq_io m k = bind_io m (\<lambda>_. k)"

text \<open>\<^verbatim>\<open>try: m  except Exception as e: h(e)\<close>\<close>

definition catch_io :: "'a io \<Rightarrow> (exn \<Rightarrow> 'a io) \<Rightarrow> 'a io" where
  "catch_io m h = (\<lambda>w. case m w of (Inl e, w') \<Rightarrow> h e w' | (Inr x, w') \<Rightarrow> (Inr x, w'))"

text \<open>
  \<^verbatim>\<open>try: m  finally: f\<close>: \<open>f\<close> runs on every exit of \<open>m\<close>; an exception of
  \<open>f\<close> replaces the outcome of \<open>m\<close>.
\<close>

definition finally_io :: "'a io \<Rightarrow> unit io \<Rightarrow> 'a io" where
  "finally_io m f =
     (\<lambda>w. case m w of (r, w') \<Rightarrow>
        (case f w' of (Inl e, w'') \<Rightarrow> (Inl e, w'') | (Inr _, w'') \<Rightarrow> (r, w'')))"

definition trace :: "call \<Rightarrow> unit io" where
  "trace c = (\<lambda>w. (Inr (), w\<lparr>calls := calls w @ [c]\<rparr>))"

text \<open>
  A call to the cluster (or to the subprocess layer): it is traced, the next entry of the
  fault script is taken, and the call raises that entry or answers from the state.
\<close>

definition api_call :: "call \<Rightarrow> 'a io \<Rightarrow> 'a io" where
  "api_call c answer =
     (\<lambda>w. let w1 = w\<lparr>calls := calls w @ [c]\<rparr> in
        case faults w1 of
          [] \<Rightarrow> answer w1
        | None # fs \<Rightarrow> answer (w1\<lparr>faults := fs\<rparr>)
        | Some e # fs \<Rightarrow> (Inl e, w1\<lparr>faults := fs\<rparr>))"

definition except_ApiException :: "'a io \<Rightarrow> (nat \<Rightarrow> exn \<Rightarrow> 'a io) \<Rightarrow> 'a io" where
  "except_ApiException m h =
     catch_io m (\<lambda>e. case e of ApiException st reason txt \<Rightarrow> h st e | _ \<Rightarrow> raise_io e)"

subsection \<open>Strings\<close>

text \<open>
  A character is a code point below 256. \<open>strip\<close> is \<^verbatim>\<open>str.strip()\<close>, which
  removes the leading and trailing characters that \<^verbatim>\<open>str.isspace\<close> accepts.
\<close>

definition py_isspace :: "char \<Rightarrow> bool" where
  "py_isspace ch =
     (let n = (of_char ch :: nat) in (9 \<le> n \<and> n \<le> 13) \<or> (28 \<le> n \<and> n \<le> 32) \<or> n = 133 \<or> n = 160)"

definition strip :: "string \<Rightarrow> string" where
  "strip s = rev (dropWhile py_isspace (rev (dropWhile py_isspace s)))"

definition startswith :: "string \<Rightarrow> string \<Rightarrow> bool" where
  "startswith s p = (take (length p) s = p)"

fun str_nat :: "nat \<Rightarrow> string" where
  "str_nat n =
     (if n < 10 then [''0123456789'' ! n] else str_nat (n div 10) @ [''0123456789'' ! (n mod 10)])"

definition str_int :: "int \<Rightarrow> string" where
  "str_int i = (if i < 0 then ''-'' @ str_nat (nat (- i)) else str_nat (nat i))"

text \<open>\<^verbatim>\<open>d.get(k, default)\<close>, given the result of the lookup.\<close>

definition get_or :: "'a \<Rightarrow> 'a option \<Rightarrow> 'a" where
  "get_or d v = (case v of None \<Rightarrow> d | Some x \<Rightarrow> x)"

text \<open>Truthiness of an optional string: \<^verbatim>\<open>None\<close> and the empty string are false.\<close>

definition truthy :: "string option \<Rightarrow> bool" where
  "truthy s = (case s of None \<Rightarrow> False | Some x \<Rightarrow> x \<noteq> [])"

text \<open>\<^verbatim>\<open>xs[i:]\<close> for any integer \<open>i\<close>: a negative index counts from the end.\<close>

definition slice_from :: "int \<Rightarrow> 'a list \<Rightarrow> 'a list" where
  "slice_from i xs =
     (if i < 0 then drop (nat (int (length xs) + i)) xs else drop (nat i) xs)"

subsection \<open>Clock, random source, semaphore\<close>

definition now_iso :: "string io" where
  "now_iso = (\<lambda>w. (Inr (now_readings w (now_count w)), w\<lparr>now_count := Suc (now_count w)\<rparr>))"

definition alphabet :: string where
  "alphabet = ''abcdefghijklmnopqrstuvwxyzABCDEFGHIJKLMNOPQRSTUVWXYZ0123456789''"

definition rand_password :: "nat \<Rightarrow> string io" where
  "rand_password n =
     (\<lambda>w. (Inr (map (\<lambda>i. alphabet ! (rng w (rng_count w + i) mod length alphabet)) [0..<n]),
            w\<lparr>rng_count := rng_count w + n\<rparr>))"

text \<open>
  \<^verbatim>\<open>_provision_semaphore.acquire(timeout=t)\<close>, seen from one worker while no other
  worker returns a permit: it takes a permit when one is free and gives up after the wait
  otherwise. \<^verbatim>\<open>release()\<close> of the bounded semaphore raises when every permit is free.
\<close>

definition sem_acquire :: "int \<Rightarrow> bool io" where
  "sem_acquire t =
     (\<lambda>w. if 0 < sem_value w
           then (Inr True, w\<lparr>sem_value := sem_value w - 1, calls := calls w @ [SemAcquire t True]\<rparr>)
           else (Inr False, w\<lparr>calls := calls w @ [SemAcquire t False]\<rparr>))"

definition sem_release :: "config \<Rightarrow> unit io" where
  "sem_release c =
     (\<lambda>w. if MAX_CONCURRENT_PROVISIONS c \<le> int (sem_value w)
           then (Inl (ValueError ''Semaphore released too many times''), w)
           else (Inr (), w\<lparr>sem_value := sem_value w + 1, calls := calls w @ [SemRelease]\<rparr>))"

subsection \<open>The cluster's answers\<close>

text \<open>
  The client library is not part of the repository. Each call answers as the cluster
  does: 404 for an object that does not exist, 409 for a creation of one that does; a
  patch merges its body into the stored object.
\<close>

definition co_get_store :: "string \<Rightarrow> store_obj io" where
  "co_get_store name =
     api_call (GetStore name)
       (\<lambda>w. case map_of (stores w) name of
               None \<Rightarrow> (Inl not_found, w)
             | Some obj \<Rightarrow> (Inr obj, w))"

definition co_patch_store_status :: "string \<Rightarrow> (string \<rightharpoonup> jval) \<Rightarrow> unit io" where
  "co_patch_store_status name body =
     api_call (PatchStoreStatus name)
       (\<lambda>w. case map_of (stores w) name of
               None \<Rightarrow> (Inl not_found, w)
             | Some obj \<Rightarrow>
                 (Inr (), w\<lparr>stores :=
                    AList.update name (obj\<lparr>so_status := so_status obj ++ body\<rparr>) (stores w)\<rparr>))"

definition co_patch_store_finalizers :: "string \<Rightarrow> string list \<Rightarrow> unit io" where
  "co_patch_store_finalizers name fs =
     api_call (PatchStoreFinalizers name fs)
       (\<lambda>w. case map_of (stores w) name of
               None \<Rightarrow> (Inl not_found, w)
             | Some obj \<Rightarrow>
                 (Inr (), w\<lparr>stores := AList.update name (obj\<lparr>so_finalizers := fs\<rparr>) (stores w)\<rparr>))"

definition read_namespace :: "string \<Rightarrow> (string \<rightharpoonup> string) io" where
  "read_namespace ns =
     api_call (ReadNamespace ns)
       (\<lambda>w. case namespaces w ns of
               None \<Rightarrow> (Inl not_found, w)
             | Some labels \<Rightarrow> (Inr labels, w))"

definition patch_namespace :: "string \<Rightarrow> (string \<rightharpoonup> string) \<Rightarrow> unit io" where
  "patch_namespace ns labels =
     api_call (PatchNamespace ns)
       (\<lambda>w. case namespaces w ns of
               None \<Rightarrow> (Inl not_found, w)
             | Some old \<Rightarrow> (Inr (), w\<lparr>namespaces := (namespaces w)(ns \<mapsto> old ++ labels)\<rparr>))"

definition create_namespace :: "string \<Rightarrow> (string \<rightharpoonup> string) \<Rightarrow> unit io" where
  "create_namespace ns labels =
     api_call (CreateNamespace ns)
       (\<lambda>w. case namespaces w ns of
               Some old \<Rightarrow> (Inl conflict, w)
             | None \<Rightarrow> (Inr (), w\<lparr>namespaces := (namespaces w)(ns \<mapsto> labels)\<rparr>))"

text \<open>Deleting a namespace removes what it holds.\<close>

definition delete_namespace :: "string \<Rightarrow> unit io" where
  "delete_namespace ns =
     api_call (DeleteNamespace ns)
       (\<lambda>w. case namespaces w ns of
               None \<Rightarrow> (Inl not_found, w)
             | Some old \<Rightarrow>
                 (Inr (), w\<lparr>namespaces := (namespaces w)(ns := None),
                            secrets := (\<lambda>k. if fst k = ns then None else secrets w k),
                            objects := {k \<in> objects w. fst (snd k) \<noteq> ns}\<rparr>))"

definition read_namespaced_secret :: "string \<Rightarrow> string \<Rightarrow> (string \<rightharpoonup> secret_val) io" where
  "read_namespaced_secret name ns =
     api_call (ReadSecret ns name)
       (\<lambda>w. case secrets w (ns, name) of
               None \<Rightarrow> (Inl not_found, w)
             | Some d \<Rightarrow> (Inr d, w))"

text \<open>\<^verbatim>\<open>string_data\<close> is stored as the bytes of the texts given.\<close>

definition create_namespaced_secret :: "string \<Rightarrow> string \<Rightarrow> (string \<rightharpoonup> string) \<Rightarrow> unit io" where
  "create_namespaced_secret ns name string_data =
     api_call (CreateSecret ns name)
       (\<lambda>w. if namespaces w ns = None then (Inl not_found, w)
             else case secrets w (ns, name) of
               Some old \<Rightarrow> (Inl conflict, w)
             | None \<Rightarrow>
                 (Inr (), w\<lparr>secrets := (secrets w)((ns, name) \<mapsto> map_option Text \<circ> string_data)\<rparr>))"

definition patch_namespaced_secret :: "string \<Rightarrow> string \<Rightarrow> (string \<rightharpoonup> string) \<Rightarrow> unit io" where
  "patch_namespaced_secret name ns string_data =
     api_call (PatchSecret ns name)
       (\<lambda>w. case secrets w (ns, name) of
               None \<Rightarrow> (Inl not_found, w)
             | Some old \<Rightarrow>
                 (Inr (), w\<lparr>secrets :=
                    (secrets w)((ns, name) \<mapsto> old ++ (map_option Text \<circ> string_data))\<rparr>))"

text \<open>
  Quotas, limit ranges and network policies: only their existence is kept, their
  contents are constants of the source.
\<close>

definition create_object :: "kind \<Rightarrow> string \<Rightarrow> string \<Rightarrow> unit io" where
  "create_object k ns name =
     api_call (CreateObject k ns name)
       (\<lambda>w. if namespaces w ns = None then (Inl not_found, w)
             else if (k, ns, name) \<in> objects w then (Inl conflict, w)
             else (Inr (), w\<lparr>objects := insert (k, ns, name) (objects w)\<rparr>))"

definition patch_object :: "kind \<Rightarrow> string \<Rightarrow> string \<Rightarrow> unit io" where
  "patch_object k ns name =
     api_call (PatchObject k ns name)
       (\<lambda>w. if (k, ns, name) \<in> objects w then (Inr (), w) else (Inl not_found, w))"

text \<open>\<^verbatim>\<open>subprocess.run(cmd, capture_output=True, text=True, timeout=t)\<close>\<close>

definition subprocess_run :: "string list \<Rightarrow> int \<Rightarrow> proc io" where
  "subprocess_run cmd t =
     api_call (SubprocessRun cmd t)
       (\<lambda>w. case procs w of
               [] \<Rightarrow> (Inr \<lparr>returncode = 0, stdout = [], stderr = []\<rparr>, w)
             | p # ps \<Rightarrow> (Inr p, w\<lparr>procs := ps\<rparr>))"

subsection \<open>Engine handlers\<close>

record EngineHandler =
  eh_name :: string
  chart_path :: string

definition build_release_name :: "EngineHandler \<Rightarrow> string \<Rightarrow> string" where
  "build_release_name h store_id = eh_name h @ ''-'' @ store_id"

definition build_helm_args ::
  "config \<Rightarrow> EngineHandler \<Rightarrow> string \<Rightarrow> string \<Rightarrow> string \<Rightarrow> string \<Rightarrow> string \<Rightarrow> string list"
where
  "build_helm_args c h store_id namespace host admin_user admin_password =
     (let timeout = ''--timeout='' @ str_int (MAX_PROVISION_SECONDS c) @ ''s'' in
      if eh_name h = ''woocommerce'' then
        [''upgrade'', ''--install'', build_release_name h store_id, chart_path h,
         ''-n'', namespace, ''--wait'', timeout,
         ''--set'', ''wordpress.ingress.enabled=true'',
         ''--set-string'', ''wordpress.ingress.ingressClassName='' @ INGRESS_CLASS c,
         ''--set-string'', ''wordpress.ingress.hostname='' @ host,
         ''--set-string'', ''wordpress.service.type=ClusterIP'',
         ''--set-string'', ''wordpress.wordpressUsername='' @ admin_user,
         ''--set-string'', ''wordpress.wordpressPassword='' @ admin_password,
         ''--set-string'', ''wordpress.wordpressEmail=admin@'' @ host,
         ''--set-string'', ''wordpress.wordpressBlogName='' @ store_id,
         ''--set-string'', ''wordpress.wordpressPlugins=woocommerce'']
        @ (if STORAGE_CLASS c \<noteq> [] then
             [''--set-string'', ''wordpress.persistence.storageClass='' @ STORAGE_CLASS c,
              ''--set-string'',
              ''wordpress.mariadb.primary.persistence.storageClass='' @ STORAGE_CLASS c]
           else [])
      else
        [''upgrade'', ''--install'', build_release_name h store_id, chart_path h,
         ''-n'', namespace, ''--wait'', timeout,
         ''--set-string'', ''ingress.className='' @ INGRESS_CLASS c,
         ''--set-string'', ''ingress.hostname='' @ host])"

definition post_ready_checks :: "EngineHandler \<Rightarrow> string \<Rightarrow> string \<Rightarrow> unit io" where
  "post_ready_checks h store_id namespace = return_io ()"

definition ENGINE_HANDLERS :: "config \<Rightarrow> string \<rightharpoonup> EngineHandler" where
  "ENGINE_HANDLERS c =
     [''woocommerce'' \<mapsto> \<lparr>eh_name = ''woocommerce'', chart_path = CHART_WOOCOMMERCE c\<rparr>,
      ''medusa'' \<mapsto> \<lparr>eh_name = ''medusa'', chart_path = CHART_MEDUSA c\<rparr>]"

subsection \<open>Helpers of the controller\<close>

definition run_helm :: "config \<Rightarrow> string list \<Rightarrow> int option \<Rightarrow> string io" where
  "run_helm c args timeout =
     (let cmd = [HELM_BIN c] @ args;
          t = (case timeout of
                 None \<Rightarrow> MAX_PROVISION_SECONDS c + 60
               | Some v \<Rightarrow> if v \<noteq> 0 then v else MAX_PROVISION_SECONDS c + 60)
      in bind_io (subprocess_run cmd t) (\<lambda>p.
           if returncode p \<noteq> 0 then
             (let details =
                    (if strip (stderr p) \<noteq> [] then strip (stderr p)
                     else if strip (stdout p) \<noteq> [] then strip (stdout p)
                     else ''unknown error'')
              in raise_io (RuntimeError (''helm failed: '' @ details)))
           else return_io (strip (stdout p))))"

definition store_namespace :: "config \<Rightarrow> string \<Rightarrow> string" where
  "store_namespace c store_id = STORE_NS_PREFIX c @ store_id"

definition store_host :: "config \<Rightarrow> string \<Rightarrow> string" where
  "store_host c store_id = store_id @ ''.'' @ BASE_DOMAIN c"

definition store_url :: "config \<Rightarrow> string \<Rightarrow> string" where
  "store_url c store_id = URL_SCHEME c @ ''://'' @ store_host c store_id"

definition get_store :: "string \<Rightarrow> store_obj io" where
  "get_store name = co_get_store name"

definition safe_patch_store_status :: "string \<Rightarrow> (string \<rightharpoonup> jval) \<Rightarrow> unit io" where
  "safe_patch_store_status name status =
     except_ApiException (co_patch_store_status name status)
       (\<lambda>st e. if st = 404 then return_io () else raise_io e)"

text \<open>
  \<open>set_fields\<close> is the dictionary as its items (an empty list for \<^verbatim>\<open>None\<close> and for
  the empty dictionary), a value \<open>None\<close> removing its key; \<open>drop_fields\<close> likewise.
\<close>

definition apply_set_fields ::
  "(string \<times> jval option) list \<Rightarrow> (string \<rightharpoonup> jval) \<Rightarrow> (string \<rightharpoonup> jval)" where
  "apply_set_fields set_fields current =
     fold (\<lambda>kv cur. case snd kv of None \<Rightarrow> cur(fst kv := None) | Some v \<Rightarrow> cur(fst kv \<mapsto> v))
       set_fields current"

definition apply_drop_fields :: "string list \<Rightarrow> (string \<rightharpoonup> jval) \<Rightarrow> (string \<rightharpoonup> jval)" where
  "apply_drop_fields drop_fields current = fold (\<lambda>k cur. cur(k := None)) drop_fields current"

definition stored_events :: "(string \<rightharpoonup> jval) \<Rightarrow> event list" where
  "stored_events current = (case current ''events'' of Some (JEvents es) \<Rightarrow> es | _ \<Rightarrow> [])"

text \<open>
  \<^verbatim>\<open>events.append(ev); events = events[-MAX_STATUS_EVENTS:]\<close>
\<close>

definition append_event :: "config \<Rightarrow> event list \<Rightarrow> event \<Rightarrow> event list" where
  "append_event c events ev = slice_from (- MAX_STATUS_EVENTS c) (events @ [ev])"

definition patch_store_status ::
  "config \<Rightarrow> string \<Rightarrow> string option \<Rightarrow> string option \<Rightarrow> string option \<Rightarrow>
   (string \<times> jval option) list \<Rightarrow> string list \<Rightarrow> unit io"
where
  "patch_store_status c name phase event_type event_message set_fields drop_fields =
     bind_io (get_store name) (\<lambda>obj.
       let current0 = so_status obj;
           current1 = (case phase of
                         None \<Rightarrow> current0
                       | Some p \<Rightarrow> if p \<noteq> [] then current0(''phase'' \<mapsto> JStr p) else current0);
           current2 = apply_set_fields set_fields current1;
           current3 = apply_drop_fields drop_fields current2
       in
       bind_io (if current3 ''createdAt'' = None
                then bind_io now_iso (\<lambda>t. return_io (current3(''createdAt'' \<mapsto> JStr t)))
                else return_io current3) (\<lambda>current4.
       bind_io now_iso (\<lambda>t.
       let current5 = current4(''updatedAt'' \<mapsto> JStr t);
           events = stored_events current5
       in
       bind_io (if truthy event_type
                then bind_io now_iso (\<lambda>ts.
                       return_io (append_event c events
                         (Event (get_or [] event_type) (get_or [] event_message) ts)))
                else return_io events) (\<lambda>events'.
       safe_patch_store_status name (current5(''events'' \<mapsto> JEvents events'))))))"

definition add_finalizer :: "string \<Rightarrow> unit io" where
  "add_finalizer name =
     bind_io (get_store name) (\<lambda>obj.
       let finalizers = so_finalizers obj in
       if FINALIZER \<in> set finalizers then return_io ()
       else co_patch_store_finalizers name (finalizers @ [FINALIZER]))"

definition remove_finalizer :: "string \<Rightarrow> unit io" where
  "remove_finalizer name =
     bind_io (except_ApiException (bind_io (get_store name) (\<lambda>obj. return_io (Some obj)))
                (\<lambda>st e. if st = 404 then return_io None else raise_io e))
       (\<lambda>r. case r of
               None \<Rightarrow> return_io ()
             | Some obj \<Rightarrow>
                 (let finalizers = so_finalizers obj in
                  if FINALIZER \<notin> set finalizers then return_io ()
                  else co_patch_store_finalizers name (filter (\<lambda>f. f \<noteq> FINALIZER) finalizers)))"

definition ownership_labels :: "string \<Rightarrow> (string \<rightharpoonup> string)" where
  "ownership_labels store_id = [STORE_MANAGED_LABEL \<mapsto> ''true'', STORE_ID_LABEL \<mapsto> store_id]"

text \<open>
  The \<^verbatim>\<open>try\<close> block returns from the function (\<open>True\<close>); a 404 from the read or from
  the patch falls through to the creation (\<open>False\<close>).
\<close>

definition ensure_namespace :: "string \<Rightarrow> string \<Rightarrow> unit io" where
  "ensure_namespace ns store_id =
     (let labels = ownership_labels store_id in
      bind_io
        (except_ApiException
           (bind_io (read_namespace ns) (\<lambda>current_labels.
              if current_labels STORE_MANAGED_LABEL \<noteq> Some ''true''
                 \<or> current_labels STORE_ID_LABEL \<noteq> Some store_id
              then bind_io (patch_namespace ns (current_labels ++ labels)) (\<lambda>_. return_io True)
              else return_io True))
           (\<lambda>st e. if st \<noteq> 404 then raise_io e else return_io False))
        (\<lambda>returned. if returned then return_io () else create_namespace ns labels))"

definition create_or_patch :: "kind \<Rightarrow> string \<Rightarrow> string \<Rightarrow> unit io" where
  "create_or_patch k ns name =
     except_ApiException (create_object k ns name)
       (\<lambda>st e. if st \<noteq> 409 then raise_io e else patch_object k ns name)"

definition apply_resourcequota :: "string \<Rightarrow> unit io" where
  "apply_resourcequota ns = create_or_patch ResourceQuota ns ''store-quota''"

definition apply_limitrange :: "string \<Rightarrow> unit io" where
  "apply_limitrange ns = create_or_patch LimitRange ns ''store-limits''"

definition apply_networkpolicy_default_deny :: "string \<Rightarrow> unit io" where
  "apply_networkpolicy_default_deny ns = create_or_patch NetworkPolicy ns ''default-deny''"

definition apply_networkpolicy_allow_required :: "string \<Rightarrow> unit io" where
  "apply_networkpolicy_allow_required ns = create_or_patch NetworkPolicy ns ''allow-required''"

definition ensure_namespace_resources :: "string \<Rightarrow> unit io" where
  "ensure_namespace_resources ns =
     seq_io (apply_resourcequota ns)
    (seq_io (apply_limitrange ns)
       (catch_io (seq_io (apply_networkpolicy_default_deny ns)
                         (apply_networkpolicy_allow_required ns))
          (\<lambda>e. return_io ())))"

definition decode_utf8 :: "secret_val \<Rightarrow> string io" where
  "decode_utf8 v =
     (case v of
        Text s \<Rightarrow> return_io s
      | Binary b \<Rightarrow> raise_io (OtherException ''UnicodeDecodeError''))"

text \<open>
  The \<^verbatim>\<open>try\<close> block gives \<open>Some (username, password)\<close> where it returns from the
  function and \<open>None\<close> where control leaves it at its end or through a 404.
\<close>

definition ensure_admin_secret :: "config \<Rightarrow> string \<Rightarrow> string \<Rightarrow> (string \<times> string) io" where
  "ensure_admin_secret c ns store_id =
     bind_io
       (except_ApiException
          (bind_io (read_namespaced_secret (ADMIN_SECRET_NAME c) ns) (\<lambda>data.
             case (data ''username'', data ''password'') of
               (Some dn, Some dp) \<Rightarrow>
                 bind_io (decode_utf8 dn) (\<lambda>username.
                 bind_io (decode_utf8 dp) (\<lambda>password.
                   if username \<noteq> [] \<and> password \<noteq> [] then return_io (Some (username, password))
                   else return_io None))
             | _ \<Rightarrow> return_io None))
          (\<lambda>st e. if st \<noteq> 404 then raise_io e else return_io None))
       (\<lambda>found. case found of
          Some up \<Rightarrow> return_io up
        | None \<Rightarrow>
            (let username = ''admin'' in
             bind_io (rand_password 20) (\<lambda>password.
             let string_data =
                   [''username'' \<mapsto> username, ''password'' \<mapsto> password, ''storeId'' \<mapsto> store_id]
             in
             seq_io
               (except_ApiException (create_namespaced_secret ns (ADMIN_SECRET_NAME c) string_data)
                  (\<lambda>st e. if st \<noteq> 409 then raise_io e
                           else patch_namespaced_secret (ADMIN_SECRET_NAME c) ns string_data))
               (return_io (username, password)))))"

definition namespace_is_owned :: "config \<Rightarrow> string \<Rightarrow> string \<Rightarrow> bool io" where
  "namespace_is_owned c ns store_id =
     (if \<not> startswith ns (STORE_NS_PREFIX c) then return_io False
      else
        bind_io
          (except_ApiException (bind_io (read_namespace ns) (\<lambda>labels. return_io (Some labels)))
             (\<lambda>st e. if st = 404 then return_io None else raise_io e))
          (\<lambda>r. case r of
                  None \<Rightarrow> return_io False
                | Some labels \<Rightarrow>
                    return_io (labels STORE_MANAGED_LABEL = Some ''true''
                               \<and> labels STORE_ID_LABEL = Some store_id)))"

subsection \<open>Reconciliation\<close>

definition unsupported_engine :: "string \<Rightarrow> string" where
  "unsupported_engine engine = ''Unsupported engine '' @ [CHR 0x27] @ engine @ [CHR 0x27]"

text \<open>The body of the \<^verbatim>\<open>try\<close> block of \<open>reconcile_store\<close>, which runs under the semaphore.\<close>

definition reconcile_gated ::
  "config \<Rightarrow> string \<Rightarrow> EngineHandler \<Rightarrow> string \<Rightarrow> string \<Rightarrow> string \<Rightarrow> string \<Rightarrow> int \<Rightarrow>
   (string \<times> string) list io"
where
  "reconcile_gated c name handler store_id store_ns host release generation =
     seq_io (patch_store_status c name None (Some ''NamespaceReady'')
               (Some (''Ensuring namespace '' @ store_ns))
               [(''namespace'', Some (JStr store_ns))] [])
    (seq_io (ensure_namespace store_ns store_id)
    (seq_io (ensure_namespace_resources store_ns)
    (bind_io (ensure_admin_secret c store_ns store_id) (\<lambda>(admin_user, admin_password).
     seq_io (patch_store_status c name None (Some ''HelmInstallStarted'')
               (Some (''Installing/upgrading release '' @ release)) [] [])
    (let helm_args = build_helm_args c handler store_id store_ns host admin_user admin_password in
     bind_io (run_helm c helm_args (Some (MAX_PROVISION_SECONDS c + 60))) (\<lambda>_.
     seq_io (post_ready_checks handler store_id store_ns)
    (bind_io now_iso (\<lambda>ready_at.
     seq_io (patch_store_status c name (Some ''Ready'') (Some ''Ready'')
               (Some (''Store ready at '' @ store_url c store_id))
               [(''url'', Some (JStr (store_url c store_id))),
                (''readyAt'', Some (JStr ready_at)),
                (''releaseName'', Some (JStr release)),
                (''namespace'', Some (JStr store_ns)),
                (''observedGeneration'', Some (JInt generation)),
                (''lastError'', None)]
               [''adminPassword'', ''adminUser''])
       (return_io [(''namespace'', store_ns), (''host'', host), (''releaseName'', release)])))))))))"

text \<open>The \<^verbatim>\<open>except Exception as e\<close> block: the status write, then \<^verbatim>\<open>raise\<close>.\<close>

definition reconcile_failed ::
  "config \<Rightarrow> string \<Rightarrow> string \<Rightarrow> string \<Rightarrow> int \<Rightarrow> exn \<Rightarrow> (string \<times> string) list io"
where
  "reconcile_failed c name store_ns release generation e =
     seq_io (patch_store_status c name (Some ''Failed'') (Some ''Failed'') (Some (str_exn e))
               [(''lastError'', Some (JStr (str_exn e))),
                (''releaseName'', Some (JStr release)),
                (''namespace'', Some (JStr store_ns)),
                (''observedGeneration'', Some (JInt generation))]
               [''adminPassword'', ''adminUser''])
       (raise_io e)"

text \<open>The \<^verbatim>\<open>try\<close> / \<^verbatim>\<open>except\<close> / \<^verbatim>\<open>finally\<close> statement as a whole.\<close>

definition reconcile_locked ::
  "config \<Rightarrow> string \<Rightarrow> EngineHandler \<Rightarrow> string \<Rightarrow> string \<Rightarrow> string \<Rightarrow> string \<Rightarrow> int \<Rightarrow>
   (string \<times> string) list io"
where
  "reconcile_locked c name handler store_id store_ns host release generation =
     finally_io
       (catch_io (reconcile_gated c name handler store_id store_ns host release generation)
          (reconcile_failed c name store_ns release generation))
       (sem_release c)"

text \<open>The two writes before the semaphore is taken.\<close>

definition reconcile_started ::
  "config \<Rightarrow> string \<Rightarrow> string \<Rightarrow> string \<Rightarrow> string \<Rightarrow> string \<Rightarrow> int \<Rightarrow> unit io"
where
  "reconcile_started c name engine store_id store_ns release generation =
     seq_io (add_finalizer name)
       (patch_store_status c name (Some ''Provisioning'') (Some ''ProvisioningStarted'')
          (Some (''Starting reconcile for '' @ engine))
          [(''url'', Some (JStr (store_url c store_id))),
           (''namespace'', Some (JStr store_ns)),
           (''releaseName'', Some (JStr release)),
           (''observedGeneration'', Some (JInt generation)),
           (''lastError'', None)]
          [''adminPassword'', ''adminUser''])"

definition reconcile_store ::
  "config \<Rightarrow> string \<Rightarrow> string \<Rightarrow> store_spec \<Rightarrow> meta \<Rightarrow> (string \<times> string) list io"
where
  "reconcile_store c name namespace spec meta =
     (if namespace \<noteq> PLATFORM_NAMESPACE c then
        seq_io (trace (LogInfo ''Ignoring Store in non-platform namespace'')) (return_io [])
      else
        let engine = get_or ''woocommerce'' (sp_engine spec) in
        case ENGINE_HANDLERS c engine of
          None \<Rightarrow>
            seq_io (patch_store_status c name (Some ''Failed'') (Some ''Failed'')
                      (Some (unsupported_engine engine))
                      [(''lastError'', Some (JStr (unsupported_engine engine)))] [])
              (raise_io (PermanentError (unsupported_engine engine)))
        | Some handler \<Rightarrow>
            (let store_id = get_or name (sp_storeId spec);
                 store_ns = store_namespace c store_id;
                 host = store_host c store_id;
                 release = build_release_name handler store_id;
                 generation = get_or 0 (m_generation meta)
             in
             seq_io (reconcile_started c name engine store_id store_ns release generation)
            (bind_io (sem_acquire (MAX_PROVISION_SECONDS c)) (\<lambda>acquired.
               if \<not> acquired then
                 seq_io (patch_store_status c name (Some ''Failed'') (Some ''Failed'')
                           (Some ''Provisioning lock timeout'')
                           [(''lastError'', Some (JStr ''Provisioning lock timeout''))] [])
                   (raise_io (TemporaryError ''Provisioning lock timeout'' 15))
               else
                 reconcile_locked c name handler store_id store_ns host release generation))))"

definition on_create ::
  "config \<Rightarrow> store_spec \<Rightarrow> string \<Rightarrow> string \<Rightarrow> meta \<Rightarrow> (string \<times> string) list io" where
  "on_create c spec name namespace meta = reconcile_store c name namespace spec meta"

text \<open>A handler that ends with a bare \<^verbatim>\<open>return\<close> gives \<open>None\<close>.\<close>

definition on_resume ::
  "config \<Rightarrow> store_spec \<Rightarrow> (string \<rightharpoonup> jval) \<Rightarrow> string \<Rightarrow> string \<Rightarrow> meta \<Rightarrow>
   (string \<times> string) list option io"
where
  "on_resume c spec status name namespace meta =
     (if namespace \<noteq> PLATFORM_NAMESPACE c then return_io None
      else if truthy (m_deletionTimestamp meta) then return_io None
      else if status ''phase'' = Some (JStr ''Ready'')
              \<and> status ''observedGeneration''
                  = Some (JInt (get_or 0 (m_generation meta)))
      then return_io None
      else bind_io (reconcile_store c name namespace spec meta) (\<lambda>r. return_io (Some r)))"

text \<open>
  The step of \<open>on_delete\<close> that deletes the tenant namespace:
  \<^verbatim>\<open>if _namespace_is_owned(store_ns, store_id): try: core.delete_namespace(store_ns)\<close>
  \<^verbatim>\<open>except ApiException as e: if e.status != 404: raise\<close>
\<close>

definition delete_owned_namespace :: "config \<Rightarrow> string \<Rightarrow> string \<Rightarrow> unit io" where
  "delete_owned_namespace c store_ns store_id =
     bind_io (namespace_is_owned c store_ns store_id) (\<lambda>owned.
       if owned then
         except_ApiException (delete_namespace store_ns)
           (\<lambda>st e. if st \<noteq> 404 then raise_io e else return_io ())
       else return_io ())"

definition on_delete :: "config \<Rightarrow> store_spec \<Rightarrow> string \<Rightarrow> string \<Rightarrow> unit io" where
  "on_delete c spec name namespace =
     (if namespace \<noteq> PLATFORM_NAMESPACE c then return_io ()
      else
        let engine = get_or ''woocommerce'' (sp_engine spec);
            store_id = get_or name (sp_storeId spec);
            handler = (case ENGINE_HANDLERS c engine of
                         Some h \<Rightarrow> h
                       | None \<Rightarrow> \<lparr>eh_name = ''woocommerce'', chart_path = CHART_WOOCOMMERCE c\<rparr>);
            store_ns = store_namespace c store_id;
            release = build_release_name handler store_id
        in
        finally_io
          (seq_io (patch_store_status c name (Some ''Deleting'') (Some ''Deleting'')
                     (Some (''Deleting '' @ release))
                     [(''namespace'', Some (JStr store_ns)), (''releaseName'', Some (JStr release))]
                     [])
          (seq_io (catch_io
                     (bind_io (run_helm c [''uninstall'', release, ''-n'', store_ns] (Some 300))
                        (\<lambda>_. return_io ()))
                     (\<lambda>e. return_io ()))
          (seq_io (delete_owned_namespace c store_ns store_id)
             (patch_store_status c name (Some ''Deleted'') (Some ''Deleted'')
                (Some (''Deleted resources for '' @ store_id)) [] []))))
          (catch_io (remove_finalizer name)
             (\<lambda>e. trace (LogWarning (''Finalizer removal warning: '' @ str_exn e)))))"

subsection \<open>The request layer\<close>

record api_config =
  MAX_ACTIVE_STORES :: int
  MAX_STORES_PER_IP :: int
  CREATE_RATE_LIMIT :: int
  RATE_WINDOW_SECONDS :: int
  EVENTS_LIMIT :: int

definition default_api_config :: api_config where
  "default_api_config =
     \<lparr> MAX_ACTIVE_STORES = 5, MAX_STORES_PER_IP = 3, CREATE_RATE_LIMIT = 5,
       RATE_WINDOW_SECONDS = 60, EVENTS_LIMIT = 20 \<rparr>"

record store_create_req =
  rq_engine :: string
  rq_storeId :: string

text \<open>
  The validation the declaration of \<^verbatim>\<open>StoreCreateReq\<close> asks for: the engine is one
  of the two literals and \<^verbatim>\<open>"woocommerce"\<close> when the request has none; the storeId
  has 3 to 32 characters, each a lower-case letter, a digit or a hyphen.
\<close>

definition storeId_char :: "char \<Rightarrow> bool" where
  "storeId_char ch = (ch \<in> set ''abcdefghijklmnopqrstuvwxyz0123456789-'')"

definition StoreCreateReq :: "string option \<Rightarrow> string \<Rightarrow> exn + store_create_req" where
  "StoreCreateReq engine_field storeId_field =
     (let e = (case engine_field of None \<Rightarrow> ''woocommerce'' | Some x \<Rightarrow> x) in
      if e \<noteq> ''woocommerce'' \<and> e \<noteq> ''medusa'' then Inl (ValidationError ''engine'')
      else if length storeId_field < 3 \<or> 32 < length storeId_field
              \<or> \<not> list_all storeId_char storeId_field
      then Inl (ValidationError ''storeId'')
      else Inr \<lparr>rq_engine = e, rq_storeId = storeId_field\<rparr>)"

record StoreResp =
  r_storeId :: string
  r_engine :: string
  r_phase :: string
  r_url :: "string option"
  r_createdAt :: "string option"
  r_updatedAt :: "string option"
  r_lastError :: "string option"
  r_namespace :: "string option"
  r_releaseName :: "string option"
  r_events :: "event list"

text \<open>The request: its headers by lower-case name, and the host of the client if known.\<close>

record request =
  headers :: "string \<rightharpoonup> string"
  client_host :: "string option"

definition client_ip :: "request \<Rightarrow> string" where
  "client_ip request =
     (case headers request ''x-forwarded-for'' of
        Some xff \<Rightarrow>
          if xff \<noteq> [] then strip (takeWhile (\<lambda>ch. ch \<noteq> CHR '','') xff)
          else (if truthy (client_host request) then get_or [] (client_host request)
                else ''unknown'')
      | None \<Rightarrow>
          (if truthy (client_host request) then get_or [] (client_host request)
           else ''unknown''))"

definition time_time :: "real io" where
  "time_time = (\<lambda>w. (Inr (time_readings w (time_count w)), w\<lparr>time_count := Suc (time_count w)\<rparr>))"

definition check_create_rate_limit :: "api_config \<Rightarrow> string \<Rightarrow> unit io" where
  "check_create_rate_limit a ip =
     bind_io time_time (\<lambda>now w.
       let bucket0 = (case ip_create_requests w ip of None \<Rightarrow> [] | Some b \<Rightarrow> b);
           bucket = dropWhile (\<lambda>t. now - t > real_of_int (RATE_WINDOW_SECONDS a)) bucket0
       in
       if int (length bucket) \<ge> CREATE_RATE_LIMIT a then
         (Inl (HTTPException 429
                 (''Rate limit exceeded for '' @ ip @ '': '' @ str_int (CREATE_RATE_LIMIT a)
                    @ '' creates/'' @ str_int (RATE_WINDOW_SECONDS a) @ ''s'')),
          w\<lparr>ip_create_requests := (ip_create_requests w)(ip \<mapsto> bucket)\<rparr>)
       else
         (Inr (), w\<lparr>ip_create_requests := (ip_create_requests w)(ip \<mapsto> bucket @ [now])\<rparr>))"

definition k8s_error :: "exn \<Rightarrow> exn" where
  "k8s_error e =
     (case e of
        ApiException st reason txt \<Rightarrow> HTTPException 500 (''K8s error: '' @ reason)
      | _ \<Rightarrow> e)"

definition list_store_objects :: "store_obj list io" where
  "list_store_objects =
     except_ApiException (api_call ListStores (\<lambda>w. (Inr (map snd (stores w)), w)))
       (\<lambda>st e. raise_io (k8s_error e))"

text \<open>\<^verbatim>\<open>xs[:i]\<close> for any integer \<open>i\<close>.\<close>

definition slice_to :: "int \<Rightarrow> 'a list \<Rightarrow> 'a list" where
  "slice_to i xs = (if i < 0 then take (nat (int (length xs) + i)) xs else take (nat i) xs)"

definition jtruthy :: "jval option \<Rightarrow> bool" where
  "jtruthy v =
     (case v of
        None \<Rightarrow> False
      | Some (JStr s) \<Rightarrow> s \<noteq> []
      | Some (JInt i) \<Rightarrow> i \<noteq> 0
      | Some (JEvents es) \<Rightarrow> es \<noteq> [])"

text \<open>
  The fields of \<^verbatim>\<open>StoreResp\<close> are validated: a text field refuses a value that is
  not a text. \<open>opt_str\<close> reads an optional text field, \<open>req_str\<close> a required one with
  its default.
\<close>

definition opt_str :: "string \<Rightarrow> jval option \<Rightarrow> exn + string option" where
  "opt_str field v =
     (case v of
        None \<Rightarrow> Inr None
      | Some (JStr s) \<Rightarrow> Inr (Some s)
      | Some _ \<Rightarrow> Inl (ValidationError field))"

definition bind_sum :: "'e + 'a \<Rightarrow> ('a \<Rightarrow> 'e + 'b) \<Rightarrow> 'e + 'b" where
  "bind_sum m f = (case m of Inl e \<Rightarrow> Inl e | Inr x \<Rightarrow> f x)"

definition to_store_resp :: "api_config \<Rightarrow> store_obj \<Rightarrow> exn + StoreResp" where
  "to_store_resp a item =
     (let spec = so_spec item;
          status = so_status item
      in
      bind_sum (case status ''events'' of
                  None \<Rightarrow> Inr []
                | Some (JEvents es) \<Rightarrow> Inr (slice_to (EVENTS_LIMIT a) es)
                | Some (JStr s) \<Rightarrow> Inl (ValidationError ''events'')
                | Some (JInt i) \<Rightarrow> Inl (OtherException ''TypeError'')) (\<lambda>events.
      bind_sum (opt_str ''phase'' (status ''phase'')) (\<lambda>phase.
      bind_sum (opt_str ''url'' (status ''url'')) (\<lambda>url.
      bind_sum (if jtruthy (status ''createdAt'') then opt_str ''createdAt'' (status ''createdAt'')
                else Inr (so_creationTimestamp item)) (\<lambda>createdAt.
      bind_sum (opt_str ''updatedAt'' (status ''updatedAt'')) (\<lambda>updatedAt.
      bind_sum (opt_str ''lastError'' (status ''lastError'')) (\<lambda>lastError.
      bind_sum (opt_str ''namespace'' (status ''namespace'')) (\<lambda>namespace.
      bind_sum (opt_str ''releaseName'' (status ''releaseName'')) (\<lambda>releaseName.
        Inr \<lparr> r_storeId = (if truthy (sp_storeId spec) then get_or [] (sp_storeId spec)
                           else so_name item),
              r_engine = get_or [] (sp_engine spec),
              r_phase = get_or ''Provisioning'' phase,
              r_url = url,
              r_createdAt = createdAt,
              r_updatedAt = updatedAt,
              r_lastError = lastError,
              r_namespace = namespace,
              r_releaseName = releaseName,
              r_events = events \<rparr>)))))))))"

definition get_store_or_none :: "string \<Rightarrow> store_obj option io" where
  "get_store_or_none store_id =
     except_ApiException (bind_io (co_get_store store_id) (\<lambda>obj. return_io (Some obj)))
       (\<lambda>st e. if st = 404 then return_io None else raise_io (k8s_error e))"

definition enforce_store_quotas :: "api_config \<Rightarrow> store_obj list \<Rightarrow> string \<Rightarrow> unit io" where
  "enforce_store_quotas a items caller_ip =
     (let active = filter (\<lambda>it. \<not> truthy (so_deletionTimestamp it)) items in
      if int (length active) \<ge> MAX_ACTIVE_STORES a then
        raise_io (HTTPException 409
                    (''Global store quota reached ('' @ str_int (MAX_ACTIVE_STORES a) @ '')''))
      else
        let same_ip =
              length (filter (\<lambda>it. case sp_requestedBy (so_spec it) of
                                      None \<Rightarrow> False
                                    | Some rb \<Rightarrow> rb_ip rb = Some caller_ip) active)
        in
        if int same_ip \<ge> MAX_STORES_PER_IP a then
          raise_io (HTTPException 409
                      (''Per-IP store quota reached ('' @ str_int (MAX_STORES_PER_IP a)
                         @ '') for '' @ caller_ip))
        else return_io ())"

text \<open>The cluster stamps a created resource with the time of its creation.\<close>

definition co_create_store :: "string \<Rightarrow> store_spec \<Rightarrow> store_obj io" where
  "co_create_store name spec =
     api_call (CreateStore name)
       (\<lambda>w. case map_of (stores w) name of
               Some old \<Rightarrow> (Inl conflict, w)
             | None \<Rightarrow>
                 (let obj = \<lparr> so_name = name, so_finalizers = [], so_deletionTimestamp = None,
                              so_creationTimestamp = Some (now_readings w (now_count w)),
                              so_spec = spec, so_status = Map.empty \<rparr>
                  in (Inr obj, w\<lparr>stores := stores w @ [(name, obj)],
                                  now_count := Suc (now_count w)\<rparr>)))"

definition already_exists :: "string \<Rightarrow> string option \<Rightarrow> exn" where
  "already_exists store_id existing_engine =
     HTTPException 409
       (''StoreId '' @ [CHR 0x27] @ store_id @ [CHR 0x27] @ '' already exists with engine ''
          @ [CHR 0x27] @ get_or ''None'' existing_engine @ [CHR 0x27])"

text \<open>
  What \<open>create_store\<close> does with a resource it found under the requested name, on the
  first read and again after a creation that the cluster refused with 409.
\<close>

definition answer_existing ::
  "api_config \<Rightarrow> store_create_req \<Rightarrow> store_obj \<Rightarrow> StoreResp io" where
  "answer_existing a req existing =
     (let existing_engine = sp_engine (so_spec existing) in
      if existing_engine \<noteq> Some (rq_engine req)
      then raise_io (already_exists (rq_storeId req) existing_engine)
      else (\<lambda>w. (to_store_resp a existing, w)))"

definition create_store :: "api_config \<Rightarrow> store_create_req \<Rightarrow> request \<Rightarrow> StoreResp io" where
  "create_store a req request =
     (let caller_ip = client_ip request in
      seq_io (check_create_rate_limit a caller_ip)
     (bind_io (get_store_or_none (rq_storeId req)) (\<lambda>existing.
        case existing of
          Some ex \<Rightarrow> answer_existing a req ex
        | None \<Rightarrow>
            bind_io list_store_objects (\<lambda>items.
            seq_io (enforce_store_quotas a items caller_ip)
           (let spec = \<lparr> sp_engine = Some (rq_engine req),
                         sp_storeId = Some (rq_storeId req),
                         sp_requestedBy =
                           Some \<lparr> rb_ip = Some caller_ip,
                                  rb_userAgent =
                                    Some (get_or ''unknown'' (headers request ''user-agent'')) \<rparr> \<rparr>
            in
            catch_io
              (bind_io (co_create_store (rq_storeId req) spec) (\<lambda>obj w. (to_store_resp a obj, w)))
              (\<lambda>e. case e of
                      ApiException st reason txt \<Rightarrow>
                        if st = 409 then
                          bind_io (get_store_or_none (rq_storeId req)) (\<lambda>existing_after_race.
                            case existing_after_race of
                              Some ex \<Rightarrow> answer_existing a req ex
                            | None \<Rightarrow> raise_io (HTTPException 409 ''StoreId already exists''))
                        else raise_io (k8s_error e)
                    | _ \<Rightarrow> raise_io e))))))"

subsection \<open>Notions for the statements\<close>

text \<open>The most recent \<open>n\<close> elements of a list whose newest element is last.\<close>

definition last_n :: "nat \<Rightarrow> 'a list \<Rightarrow> 'a list" where
  "last_n n xs = drop (length xs - n) xs"

text \<open>What an operation added to the trace.\<close>

definition new_calls :: "world \<Rightarrow> world \<Rightarrow> call list" where
  "new_calls w w' = drop (length (calls w)) (calls w')"

fun is_sem :: "call \<Rightarrow> bool" where
  "is_sem (SemAcquire t ok) = True"
| "is_sem SemRelease = True"
| "is_sem _ = False"

definition nonsem :: "call \<Rightarrow> bool" where
  "nonsem c = (\<not> is_sem c)"

text \<open>
  A namespace of the world is owned by a store: its name starts with the prefix of the
  store namespaces and it carries both ownership labels, the second with this storeId.
\<close>

definition owns :: "config \<Rightarrow> world \<Rightarrow> string \<Rightarrow> string \<Rightarrow> bool" where
  "owns c w ns store_id =
     (startswith ns (STORE_NS_PREFIX c)
      \<and> (case namespaces w ns of
            None \<Rightarrow> False
          | Some labels \<Rightarrow> labels STORE_MANAGED_LABEL = Some ''true''
                           \<and> labels STORE_ID_LABEL = Some store_id))"

text \<open>
  What a deletion may do to the namespaces between two worlds: it calls for the deletion
  of no namespace but \<open>ns\<close>, and of that only if it was owned; the namespaces are as
  before, or \<open>ns\<close> was owned and is gone.
\<close>

definition delete_rel :: "config \<Rightarrow> string \<Rightarrow> string \<Rightarrow> world \<Rightarrow> world \<Rightarrow> bool" where
  "delete_rel c ns store_id w w' =
     ((\<exists>new. calls w' = calls w @ new
         \<and> (\<forall>ns'. DeleteNamespace ns' \<in> set new \<longrightarrow> ns' = ns \<and> owns c w ns store_id))
      \<and> (namespaces w' = namespaces w
         \<or> (owns c w ns store_id \<and> namespaces w' = (namespaces w)(ns := None))))"

text \<open>Every run of an operation relates the world before to the world after.\<close>

definition steps :: "(world \<Rightarrow> world \<Rightarrow> bool) \<Rightarrow> 'a io \<Rightarrow> bool" where
  "steps R m = (\<forall>w. R w (snd (m w)))"

text \<open>The calls that read or patch a Store resource.\<close>

fun is_store_call :: "call \<Rightarrow> bool" where
  "is_store_call (GetStore n) = True"
| "is_store_call (PatchStoreStatus n) = True"
| "is_store_call (PatchStoreFinalizers n fs) = True"
| "is_store_call _ = False"

text \<open>
  The body \<open>patch_store_status\<close> sends and the number of clock readings after it, from
  the status read, the arguments and the clock.
\<close>

definition status_body ::
  "config \<Rightarrow> (string \<rightharpoonup> jval) \<Rightarrow> string option \<Rightarrow> string option \<Rightarrow> string option \<Rightarrow>
   (string \<times> jval option) list \<Rightarrow> string list \<Rightarrow> (nat \<Rightarrow> string) \<Rightarrow> nat \<Rightarrow>
   (string \<rightharpoonup> jval) \<times> nat"
where
  "status_body c current0 phase event_type event_message set_fields drop_fields now n =
     (let current1 = (case phase of
                        None \<Rightarrow> current0
                      | Some p \<Rightarrow> if p \<noteq> [] then current0(''phase'' \<mapsto> JStr p) else current0);
          current3 = apply_drop_fields drop_fields (apply_set_fields set_fields current1);
          current4 = (if current3 ''createdAt'' = None
                      then current3(''createdAt'' \<mapsto> JStr (now n)) else current3);
          n1 = (if current3 ''createdAt'' = None then Suc n else n);
          current5 = current4(''updatedAt'' \<mapsto> JStr (now n1));
          events = stored_events current5;
          events' = (if truthy event_type
                     then append_event c events
                            (Event (get_or [] event_type) (get_or [] event_message) (now (Suc n1)))
                     else events);
          n3 = (if truthy event_type then Suc (Suc n1) else Suc n1)
      in (current5(''events'' \<mapsto> JEvents events'), n3))"

text \<open>An operation leaves a component of the world as it was, whatever its outcome.\<close>

definition keeps :: "(world \<Rightarrow> 'b) \<Rightarrow> 'a io \<Rightarrow> bool" where
  "keeps f m = (\<forall>w. f (snd (m w)) = f w)"

text \<open>An operation only adds to the trace, and only calls of one sort.\<close>

definition emits :: "(call \<Rightarrow> bool) \<Rightarrow> 'a io \<Rightarrow> bool" where
  "emits P m = (\<forall>w. \<exists>new. calls (snd (m w)) = calls w @ new \<and> list_all P new)"

text \<open>The finalizer lists of the Store resources.\<close>

definition finalizer_lists :: "world \<Rightarrow> (string \<times> string list) list" where
  "finalizer_lists w = map (\<lambda>p. (fst p, so_finalizers (snd p))) (stores w)"

text \<open>
  An operation started with an empty fault script, so that the cluster answers every call
  from its state, in a world whose Store resources satisfy \<open>I\<close>: it ends in such a
  world again, and it raises no permanent error.
\<close>

definition runs :: "((string \<times> store_obj) list \<Rightarrow> bool) \<Rightarrow> 'a io \<Rightarrow> bool" where
  "runs I m =
     (\<forall>w. faults w = [] \<and> I (stores w) \<longrightarrow>
        faults (snd (m w)) = [] \<and> I (stores (snd (m w)))
        \<and> (\<forall>msg. fst (m w) \<noteq> Inl (PermanentError msg)))"

text \<open>
  A resource under provisioning: it carries the finalizer, and its status records the
  release and the tenant namespace.
\<close>

definition provisioning ::
  "string \<Rightarrow> string \<Rightarrow> string \<Rightarrow> (string \<times> store_obj) list \<Rightarrow> bool" where
  "provisioning name release ns st =
     (\<exists>obj. map_of st name = Some obj
        \<and> FINALIZER \<in> set (so_finalizers obj)
        \<and> so_status obj ''releaseName'' = Some (JStr release)
        \<and> so_status obj ''namespace'' = Some (JStr ns))"

text \<open>
  The status of a resource as the response model reads it: \<open>text_field\<close> holds of a
  field that is absent or a text, \<open>text_of\<close> reads such a field, and a status is
  \<open>status_typed\<close> when its events are absent or a list of events and each field the
  response declares as a text is one. \<open>representation\<close> is the response the request
  layer gives for a resource with such a status, field by field.
\<close>

definition text_field :: "jval option \<Rightarrow> bool" where
  "text_field v = (case v of None \<Rightarrow> True | Some (JStr s) \<Rightarrow> True | Some _ \<Rightarrow> False)"

definition text_of :: "jval option \<Rightarrow> string option" where
  "text_of v = (case v of Some (JStr s) \<Rightarrow> Some s | _ \<Rightarrow> None)"

definition status_typed :: "(string \<rightharpoonup> jval) \<Rightarrow> bool" where
  "status_typed status =
     ((case status ''events'' of None \<Rightarrow> True | Some (JEvents es) \<Rightarrow> True | Some _ \<Rightarrow> False)
      \<and> list_all (\<lambda>k. text_field (status k))
          [''phase'', ''url'', ''createdAt'', ''updatedAt'', ''lastError'', ''namespace'',
           ''releaseName''])"

definition representation :: "api_config \<Rightarrow> store_obj \<Rightarrow> StoreResp" where
  "representation a item =
     \<lparr> r_storeId = (case sp_storeId (so_spec item) of
                      None \<Rightarrow> so_name item
                    | Some s \<Rightarrow> if s = [] then so_name item else s),
       r_engine = (case sp_engine (so_spec item) of None \<Rightarrow> [] | Some e \<Rightarrow> e),
       r_phase = (case text_of (so_status item ''phase'') of None \<Rightarrow> ''Provisioning'' | Some p \<Rightarrow> p),
       r_url = text_of (so_status item ''url''),
       r_createdAt = (case text_of (so_status item ''createdAt'') of
                        None \<Rightarrow> so_creationTimestamp item
                      | Some t \<Rightarrow> if t = [] then so_creationTimestamp item else Some t),
       r_updatedAt = text_of (so_status item ''updatedAt''),
       r_lastError = text_of (so_status item ''lastError''),
       r_namespace = text_of (so_status item ''namespace''),
       r_releaseName = text_of (so_status item ''releaseName''),
       r_events = slice_to (EVENTS_LIMIT a) (stored_events (so_status item)) \<rparr>"

subsection \<open>A store and a world to evaluate on\<close>

definition example_store :: store_obj where
  "example_store =
     \<lparr> so_name = ''acme-1'', so_finalizers = [], so_deletionTimestamp = None,
       so_creationTimestamp = Some ''t0'',
       so_spec = \<lparr> sp_engine = Some ''woocommerce'', sp_storeId = Some ''acme-1'',
                   sp_requestedBy = None \<rparr>,
       so_status = Map.empty \<rparr>"

definition example_world :: world where
  "example_world =
     \<lparr> stores = [(''acme-1'', example_store)], namespaces = Map.empty, secrets = Map.empty,
       objects = {}, sem_value = 2, faults = [], procs = [],
       now_readings = (\<lambda>n. ''t1''), now_count = 0, rng = (\<lambda>n. n), rng_count = 0,
       time_readings = (\<lambda>n. 0), time_count = 0, ip_create_requests = Map.empty, calls = [] \<rparr>"

definition tenant_world :: world where
  "tenant_world =
     example_world
       \<lparr> namespaces := [''store-acme-1'' \<mapsto> ownership_labels ''acme-1''],
         secrets := [(''store-acme-1'', ''store-admin'')
                       \<mapsto> [''username'' \<mapsto> Text ''admin'', ''password'' \<mapsto> Text ''s3cret'']] \<rparr>"

definition fresh_tenant_world :: world where
  "fresh_tenant_world =
     example_world \<lparr> namespaces := [''store-acme-1'' \<mapsto> ownership_labels ''acme-1''] \<rparr>"

definition tampered_world :: world where
  "tampered_world =
     example_world
       \<lparr> namespaces := [''store-acme-1'' \<mapsto> [STORE_MANAGED_LABEL \<mapsto> ''true'',
                                               STORE_ID_LABEL \<mapsto> ''someone-else'']] \<rparr>"

text \<open>A world whose installer fails, and one whose cluster refuses a network policy.\<close>

definition helm_fail_world :: world where
  "helm_fail_world =
     example_world \<lparr> procs := [\<lparr>returncode = 1, stdout = [], stderr = ''boom''\<rparr>] \<rparr>"

definition server_error :: exn where
  "server_error = ApiException 500 ''Internal Server Error'' ''(500) Reason: Internal Server Error''"

definition netpol_fault_world :: world where
  "netpol_fault_world =
     example_world
       \<lparr> faults := [None, None, None, None, None, None, None, None, None, None,
                     Some server_error] \<rparr>"

text \<open>A field of the status of a Store resource of a world.\<close>

definition status_field :: "world \<Rightarrow> string \<Rightarrow> string \<Rightarrow> jval option" where
  "status_field w name k =
     (case map_of (stores w) name of None \<Rightarrow> None | Some obj \<Rightarrow> so_status obj k)"

fun is_object_call :: "call \<Rightarrow> bool" where
  "is_object_call (CreateObject k ns n) = True"
| "is_object_call (PatchObject k ns n) = True"
| "is_object_call _ = False"

text \<open>
  What a run shows: its result, what is left of the fault script, the phase and the
  \<open>lastError\<close> of a Store resource, and the calls for quotas, limit ranges and policies.
\<close>

definition outcome ::
  "(exn + 'a) \<times> world \<Rightarrow> string \<Rightarrow>
   (exn + 'a) \<times> exn option list \<times> jval option \<times> jval option \<times> call list" where
  "outcome rw name =
     (case rw of (r, w) \<Rightarrow>
        (r, faults w, status_field w name ''phase'', status_field w name ''lastError'',
         filter is_object_call (calls w)))"

text \<open>
  The installer commands of a trace, and what a run shows of them: its result, the phase
  of a Store resource and the installer commands issued so far.
\<close>

fun installer_cmd :: "call \<Rightarrow> string list option" where
  "installer_cmd (SubprocessRun cmd t) = Some cmd"
| "installer_cmd _ = None"

definition installs :: "(exn + 'a) \<times> world \<Rightarrow> string \<Rightarrow> (exn + 'a) \<times> jval option \<times> string list list" where
  "installs rw name =
     (case rw of (r, w) \<Rightarrow>
        (r, status_field w name ''phase'', List.map_filter installer_cmd (calls w)))"

text \<open>
  A create request from a caller at 10.0.0.1, a world whose bucket for that caller is
  full, and a world in which a concurrent writer creates the resource between the first
  read and the creation: the first read is answered 404 and the creation 409.
\<close>

definition example_request :: request where
  "example_request = \<lparr> headers = Map.empty, client_host = Some ''10.0.0.1'' \<rparr>"

definition example_create :: store_create_req where
  "example_create = \<lparr> rq_engine = ''woocommerce'', rq_storeId = ''acme-1'' \<rparr>"

definition rate_limited_world :: world where
  "rate_limited_world =
     example_world \<lparr> ip_create_requests := [''10.0.0.1'' \<mapsto> [0, 0, 0, 0, 0]] \<rparr>"

definition race_world :: world where
  "race_world =
     example_world
       \<lparr> faults := [Some not_found, None, Some conflict] \<rparr>"

text \<open>A spec that names neither an engine nor a storeId.\<close>

definition bare_spec :: store_spec where
  "bare_spec = \<lparr> sp_engine = None, sp_storeId = None, sp_requestedBy = None \<rparr>"

text \<open>A world whose resource carries a number where the response expects a text.\<close>

definition illtyped_world :: world where
  "illtyped_world =
     example_world
       \<lparr> stores := [(''acme-1'', example_store\<lparr>so_status := [''lastError'' \<mapsto> JInt 5]\<rparr>)] \<rparr>"

section \<open>Properties\<close>

subsection \<open>Unfolding the model on a concrete world\<close>

lemmas model_defs =
  reconcile_store_def reconcile_started_def reconcile_locked_def reconcile_gated_def
  reconcile_failed_def patch_store_status_def safe_patch_store_status_def get_store_def
  add_finalizer_def remove_finalizer_def ensure_namespace_def ensure_namespace_resources_def
  apply_resourcequota_def apply_limitrange_def apply_networkpolicy_default_deny_def
  apply_networkpolicy_allow_required_def create_or_patch_def ensure_admin_secret_def
  namespace_is_owned_def run_helm_def post_ready_checks_def
  co_get_store_def co_patch_store_status_def co_patch_store_finalizers_def
  read_namespace_def patch_namespace_def create_namespace_def delete_namespace_def
  read_namespaced_secret_def create_namespaced_secret_def patch_namespaced_secret_def
  create_object_def patch_object_def subprocess_run_def
  api_call_def bind_io_def seq_io_def catch_io_def finally_io_def except_ApiException_def
  return_io_def raise_io_def trace_def now_iso_def rand_password_def sem_acquire_def
  sem_release_def decode_utf8_def
  example_world_def example_store_def default_config_def ENGINE_HANDLERS_def
  get_or_def truthy_def Let_def apply_set_fields_def apply_drop_fields_def stored_events_def
  append_event_def slice_from_def store_namespace_def store_host_def store_url_def
  build_release_name_def ownership_labels_def FINALIZER_def STORE_MANAGED_LABEL_def
  STORE_ID_LABEL_def not_found_def conflict_def status_field_def outcome_def

lemmas api_defs =
  create_store_def answer_existing_def check_create_rate_limit_def time_time_def
  get_store_or_none_def list_store_objects_def enforce_store_quotas_def co_create_store_def
  co_get_store_def client_ip_def k8s_error_def already_exists_def to_store_resp_def
  opt_str_def bind_sum_def jtruthy_def slice_to_def api_call_def bind_io_def seq_io_def
  catch_io_def except_ApiException_def return_io_def raise_io_def
  default_api_config_def example_request_def example_create_def example_world_def
  example_store_def get_or_def truthy_def Let_def str_int_def not_found_def conflict_def

subsection \<open>The monad and the cluster's answers\<close>

lemma api_call_nofault:
  "faults w = [] \<Longrightarrow> api_call c answer w = answer (w\<lparr>calls := calls w @ [c]\<rparr>)"
  by (simp add: api_call_def Let_def)

lemma get_store_ok:
  "map_of (stores w) name = Some obj \<Longrightarrow> faults w = [] \<Longrightarrow>
   get_store name w = (Inr obj, w\<lparr>calls := calls w @ [GetStore name]\<rparr>)"
  by (simp add: get_store_def co_get_store_def api_call_nofault)

lemma safe_patch_store_status_ok:
  "map_of (stores w) name = Some obj \<Longrightarrow> faults w = [] \<Longrightarrow>
   safe_patch_store_status name body w =
     (Inr (), w\<lparr>calls := calls w @ [PatchStoreStatus name],
                stores := AList.update name (obj\<lparr>so_status := so_status obj ++ body\<rparr>) (stores w)\<rparr>)"
  by (simp add: safe_patch_store_status_def except_ApiException_def catch_io_def
        co_patch_store_status_def api_call_nofault)

lemma patch_store_status_body:
  "patch_store_status c name phase event_type event_message set_fields drop_fields =
     bind_io (get_store name) (\<lambda>obj w.
       safe_patch_store_status name
         (fst (status_body c (so_status obj) phase event_type event_message set_fields drop_fields
                 (now_readings w) (now_count w)))
         (w\<lparr>now_count := snd (status_body c (so_status obj) phase event_type event_message
                 set_fields drop_fields (now_readings w) (now_count w))\<rparr>))"
  unfolding patch_store_status_def status_body_def
  apply (rule arg_cong[where f="bind_io (get_store name)"])
  apply (rule ext)+
  apply (simp add: bind_io_def return_io_def now_iso_def Let_def)
  done

lemma patch_store_status_ok:
  assumes "map_of (stores w) name = Some obj" "faults w = []"
  shows "patch_store_status c name ph et em sf df w =
     (Inr (), w\<lparr>calls := calls w @ [GetStore name, PatchStoreStatus name],
                now_count := snd (status_body c (so_status obj) ph et em sf df
                                    (now_readings w) (now_count w)),
                stores := AList.update name
                  (obj\<lparr>so_status := so_status obj ++
                        fst (status_body c (so_status obj) ph et em sf df
                               (now_readings w) (now_count w))\<rparr>)
                  (stores w)\<rparr>)"
  using assms
  by (simp add: patch_store_status_body bind_io_def get_store_ok safe_patch_store_status_ok)

subsection \<open>What an operation leaves alone, and what it adds to the trace\<close>

named_theorems keeps_intros
named_theorems emits_intros

lemma keepsD: "keeps f m \<Longrightarrow> m w = (r, w') \<Longrightarrow> f w' = f w"
  by (auto simp: keeps_def dest: spec[of _ w])

lemma keeps_return [keeps_intros]: "keeps f (return_io x)"
  by (simp add: keeps_def return_io_def)

lemma keeps_raise [keeps_intros]: "keeps f (raise_io e)"
  by (simp add: keeps_def raise_io_def)

lemma keeps_bind [keeps_intros]:
  "keeps f m \<Longrightarrow> (\<And>x. keeps f (k x)) \<Longrightarrow> keeps f (bind_io m k)"
  unfolding keeps_def bind_io_def
  by (auto split: prod.splits sum.splits) (metis snd_conv)+

lemma keeps_seq [keeps_intros]: "keeps f m \<Longrightarrow> keeps f k \<Longrightarrow> keeps f (seq_io m k)"
  by (simp add: seq_io_def keeps_bind)

lemma keeps_catch [keeps_intros]:
  "keeps f m \<Longrightarrow> (\<And>e. keeps f (h e)) \<Longrightarrow> keeps f (catch_io m h)"
  unfolding keeps_def catch_io_def
  by (auto split: prod.splits sum.splits) (metis snd_conv)+

lemma keeps_except [keeps_intros]:
  "keeps f m \<Longrightarrow> (\<And>st e. keeps f (h st e)) \<Longrightarrow> keeps f (except_ApiException m h)"
  unfolding except_ApiException_def
  by (rule keeps_catch) (auto split: exn.splits intro: keeps_raise)

lemma keeps_finally [keeps_intros]:
  "keeps f m \<Longrightarrow> keeps f g \<Longrightarrow> keeps f (finally_io m g)"
  unfolding keeps_def finally_io_def
  by (auto split: prod.splits sum.splits) (metis snd_conv)+

lemma keeps_if [keeps_intros]:
  "(b \<Longrightarrow> keeps f m1) \<Longrightarrow> (\<not> b \<Longrightarrow> keeps f m2) \<Longrightarrow> keeps f (if b then m1 else m2)"
  by simp

lemma keeps_case_option [keeps_intros]:
  "keeps f a \<Longrightarrow> (\<And>x. keeps f (b x)) \<Longrightarrow> keeps f (case v of None \<Rightarrow> a | Some x \<Rightarrow> b x)"
  by (cases v) simp_all

lemma keeps_case_prod [keeps_intros]:
  "(\<And>a b. keeps f (g a b)) \<Longrightarrow> keeps f (case p of (a, b) \<Rightarrow> g a b)"
  by (cases p) simp

lemma keeps_Let [keeps_intros]: "keeps f (g v) \<Longrightarrow> keeps f (Let v g)"
  by simp

lemma keeps_api_call:
  "(\<And>w cs. f (w\<lparr>calls := cs\<rparr>) = f w) \<Longrightarrow> (\<And>w fs. f (w\<lparr>faults := fs\<rparr>) = f w) \<Longrightarrow>
   keeps f answer \<Longrightarrow> keeps f (api_call c answer)"
  unfolding keeps_def api_call_def
  by (auto simp: Let_def split: list.splits option.splits)

lemma emits_return [emits_intros]: "emits P (return_io x)"
  by (simp add: emits_def return_io_def)

lemma emits_raise [emits_intros]: "emits P (raise_io e)"
  by (simp add: emits_def raise_io_def)

lemma emits_bind [emits_intros]:
  assumes "emits P m" "\<And>x. emits P (k x)"
  shows "emits P (bind_io m k)"
  unfolding emits_def
proof
  fix w
  obtain r w1 where m: "m w = (r, w1)" by (cases "m w")
  from assms(1) m obtain n1 where n1: "calls w1 = calls w @ n1" "list_all P n1"
    by (auto simp: emits_def dest: spec[of _ w])
  show "\<exists>new. calls (snd (bind_io m k w)) = calls w @ new \<and> list_all P new"
  proof (cases r)
    case (Inl e)
    then show ?thesis using m n1 by (simp add: bind_io_def)
  next
    case (Inr x)
    from assms(2)[of x] obtain n2 where "calls (snd (k x w1)) = calls w1 @ n2" "list_all P n2"
      by (auto simp: emits_def)
    then show ?thesis using m n1 Inr by (simp add: bind_io_def)
  qed
qed

lemma emits_seq [emits_intros]: "emits P m \<Longrightarrow> emits P k \<Longrightarrow> emits P (seq_io m k)"
  by (simp add: seq_io_def emits_bind)

lemma emits_catch [emits_intros]:
  assumes "emits P m" "\<And>e. emits P (h e)"
  shows "emits P (catch_io m h)"
  unfolding emits_def
proof
  fix w
  obtain r w1 where m: "m w = (r, w1)" by (cases "m w")
  from assms(1) m obtain n1 where n1: "calls w1 = calls w @ n1" "list_all P n1"
    by (auto simp: emits_def dest: spec[of _ w])
  show "\<exists>new. calls (snd (catch_io m h w)) = calls w @ new \<and> list_all P new"
  proof (cases r)
    case (Inr x)
    then show ?thesis using m n1 by (simp add: catch_io_def)
  next
    case (Inl e)
    from assms(2)[of e] obtain n2 where "calls (snd (h e w1)) = calls w1 @ n2" "list_all P n2"
      by (auto simp: emits_def)
    then show ?thesis using m n1 Inl by (simp add: catch_io_def)
  qed
qed

lemma emits_except [emits_intros]:
  "emits P m \<Longrightarrow> (\<And>st e. emits P (h st e)) \<Longrightarrow> emits P (except_ApiException m h)"
  unfolding except_ApiException_def
  by (rule emits_catch) (auto split: exn.splits intro: emits_raise)

lemma emits_finally [emits_intros]:
  assumes "emits P m" "emits P g"
  shows "emits P (finally_io m g)"
  unfolding emits_def
proof
  fix w
  obtain r w1 where m: "m w = (r, w1)" by (cases "m w")
  from assms(1) m obtain n1 where n1: "calls w1 = calls w @ n1" "list_all P n1"
    by (auto simp: emits_def dest: spec[of _ w])
  obtain r2 w2 where g: "g w1 = (r2, w2)" by (cases "g w1")
  from assms(2) g obtain n2 where "calls w2 = calls w1 @ n2" "list_all P n2"
    by (auto simp: emits_def dest: spec[of _ w1])
  then show "\<exists>new. calls (snd (finally_io m g w)) = calls w @ new \<and> list_all P new"
    using m g n1 by (cases r2) (simp_all add: finally_io_def)
qed

lemma emits_if [emits_intros]:
  "(b \<Longrightarrow> emits P m1) \<Longrightarrow> (\<not> b \<Longrightarrow> emits P m2) \<Longrightarrow> emits P (if b then m1 else m2)"
  by simp

lemma emits_case_option [emits_intros]:
  "emits P a \<Longrightarrow> (\<And>x. emits P (b x)) \<Longrightarrow> emits P (case v of None \<Rightarrow> a | Some x \<Rightarrow> b x)"
  by (cases v) simp_all

lemma emits_case_prod [emits_intros]:
  "(\<And>a b. emits P (g a b)) \<Longrightarrow> emits P (case p of (a, b) \<Rightarrow> g a b)"
  by (cases p) simp

lemma emits_Let [emits_intros]: "emits P (g v) \<Longrightarrow> emits P (Let v g)"
  by simp

lemma emits_api_call:
  "P c \<Longrightarrow> keeps calls answer \<Longrightarrow> emits P (api_call c answer)"
  unfolding keeps_def emits_def api_call_def
  by (auto simp: Let_def split: list.splits option.splits)

lemma emits_trace [emits_intros]: "P c \<Longrightarrow> emits P (trace c)"
  by (simp add: emits_def trace_def)

lemma emits_now_iso [emits_intros]: "emits P now_iso"
  by (simp add: emits_def now_iso_def)

lemma emits_rand_password [emits_intros]: "emits P (rand_password n)"
  by (simp add: emits_def rand_password_def)

lemma emits_co_get_store [emits_intros]: "P (GetStore n) \<Longrightarrow> emits P (co_get_store n)"
  unfolding co_get_store_def
  by (rule emits_api_call) (auto simp: keeps_def split: option.splits)

lemma emits_co_patch_store_status [emits_intros]:
  "P (PatchStoreStatus n) \<Longrightarrow> emits P (co_patch_store_status n b)"
  unfolding co_patch_store_status_def
  by (rule emits_api_call) (auto simp: keeps_def split: option.splits)

lemma emits_patch_store_status [emits_intros]:
  "P (GetStore n) \<Longrightarrow> P (PatchStoreStatus n) \<Longrightarrow> emits P (patch_store_status c n ph et em sf df)"
  unfolding patch_store_status_def safe_patch_store_status_def get_store_def
  by (intro emits_intros; simp)


lemma keeps_now_iso [keeps_intros]:
  "keeps sem_value now_iso" "keeps namespaces now_iso" "keeps finalizer_lists now_iso"
  by (simp_all add: keeps_def now_iso_def finalizer_lists_def)

lemma keeps_rand_password [keeps_intros]:
  "keeps sem_value (rand_password n)" "keeps namespaces (rand_password n)"
  "keeps finalizer_lists (rand_password n)"
  by (simp_all add: keeps_def rand_password_def finalizer_lists_def)

lemma keeps_trace [keeps_intros]:
  "keeps sem_value (trace c)" "keeps namespaces (trace c)" "keeps finalizer_lists (trace c)"
  by (simp_all add: keeps_def trace_def finalizer_lists_def)

lemma keeps_sem_value_api:
  "keeps sem_value answer \<Longrightarrow> keeps sem_value (api_call c answer)"
  by (rule keeps_api_call) simp_all

lemma keeps_sem_value_prims [keeps_intros]:
  "keeps sem_value (co_get_store n)"
  "keeps sem_value (co_patch_store_status n b)"
  "keeps sem_value (co_patch_store_finalizers n fs)"
  "keeps sem_value (read_namespace ns)"
  "keeps sem_value (patch_namespace ns ls)"
  "keeps sem_value (create_namespace ns ls)"
  "keeps sem_value (delete_namespace ns)"
  "keeps sem_value (read_namespaced_secret n ns)"
  "keeps sem_value (create_namespaced_secret ns n sd)"
  "keeps sem_value (patch_namespaced_secret n ns sd)"
  "keeps sem_value (create_object k ns n)"
  "keeps sem_value (patch_object k ns n)"
  "keeps sem_value (subprocess_run cmd t)"
  unfolding co_get_store_def co_patch_store_status_def co_patch_store_finalizers_def
    read_namespace_def patch_namespace_def create_namespace_def delete_namespace_def
    read_namespaced_secret_def create_namespaced_secret_def patch_namespaced_secret_def
    create_object_def patch_object_def subprocess_run_def
  by (rule keeps_sem_value_api; auto simp: keeps_def split: option.splits list.splits)+

lemma emits_prims [emits_intros]:
  "P (CreateStore n) \<Longrightarrow> emits P (co_create_store n sp)"
  "P (PatchStoreFinalizers n fs) \<Longrightarrow> emits P (co_patch_store_finalizers n fs)"
  "P (ReadNamespace ns) \<Longrightarrow> emits P (read_namespace ns)"
  "P (PatchNamespace ns) \<Longrightarrow> emits P (patch_namespace ns ls)"
  "P (CreateNamespace ns) \<Longrightarrow> emits P (create_namespace ns ls)"
  "P (DeleteNamespace ns) \<Longrightarrow> emits P (delete_namespace ns)"
  "P (ReadSecret ns n) \<Longrightarrow> emits P (read_namespaced_secret n ns)"
  "P (CreateSecret ns n) \<Longrightarrow> emits P (create_namespaced_secret ns n sd)"
  "P (PatchSecret ns n) \<Longrightarrow> emits P (patch_namespaced_secret n ns sd)"
  "P (CreateObject k ns n) \<Longrightarrow> emits P (create_object k ns n)"
  "P (PatchObject k ns n) \<Longrightarrow> emits P (patch_object k ns n)"
  "P (SubprocessRun cmd t) \<Longrightarrow> emits P (subprocess_run cmd t)"
  unfolding co_create_store_def co_patch_store_finalizers_def
    read_namespace_def patch_namespace_def create_namespace_def delete_namespace_def
    read_namespaced_secret_def create_namespaced_secret_def patch_namespaced_secret_def
    create_object_def patch_object_def subprocess_run_def
  by (rule emits_api_call; auto simp: keeps_def Let_def split: option.splits list.splits)+

lemma keeps_sem_value_patch_store_status [keeps_intros]:
  "keeps sem_value (patch_store_status c n ph et em sf df)"
  unfolding patch_store_status_def safe_patch_store_status_def get_store_def
  by (intro keeps_intros)


lemma keeps_decode_utf8 [keeps_intros]: "keeps f (decode_utf8 v)"
  by (cases v) (simp_all add: decode_utf8_def keeps_intros)

lemma emits_decode_utf8 [emits_intros]: "emits P (decode_utf8 v)"
  by (cases v) (simp_all add: decode_utf8_def emits_intros)

lemma keeps_sem_value_controller [keeps_intros]:
  "keeps sem_value (add_finalizer n)"
  "keeps sem_value (remove_finalizer n)"
  "keeps sem_value (ensure_namespace ns sid)"
  "keeps sem_value (ensure_namespace_resources ns)"
  "keeps sem_value (ensure_admin_secret c ns sid)"
  "keeps sem_value (namespace_is_owned c ns sid)"
  "keeps sem_value (run_helm c args tmo)"
  "keeps sem_value (post_ready_checks h sid ns)"
  unfolding add_finalizer_def remove_finalizer_def ensure_namespace_def
    ensure_namespace_resources_def apply_resourcequota_def apply_limitrange_def
    apply_networkpolicy_default_deny_def apply_networkpolicy_allow_required_def
    create_or_patch_def ensure_admin_secret_def namespace_is_owned_def run_helm_def
    post_ready_checks_def get_store_def
  by (intro keeps_intros)+

lemma nonsem_simps [simp]:
  "nonsem (GetStore n)" "nonsem (PatchStoreStatus n)" "nonsem (PatchStoreFinalizers n fs)"
  "nonsem ListStores" "nonsem (CreateStore n)" "nonsem (ReadNamespace ns)"
  "nonsem (PatchNamespace ns)" "nonsem (CreateNamespace ns)" "nonsem (DeleteNamespace ns)"
  "nonsem (ReadSecret ns n)" "nonsem (CreateSecret ns n)" "nonsem (PatchSecret ns n)"
  "nonsem (CreateObject k ns n)" "nonsem (PatchObject k ns n)" "nonsem (SubprocessRun cmd t)"
  "nonsem (LogInfo m)" "nonsem (LogWarning m)"
  by (simp_all add: nonsem_def)

lemma emits_nonsem_controller [emits_intros]:
  "emits nonsem (add_finalizer n)"
  "emits nonsem (remove_finalizer n)"
  "emits nonsem (ensure_namespace ns sid)"
  "emits nonsem (ensure_namespace_resources ns)"
  "emits nonsem (ensure_admin_secret c ns sid)"
  "emits nonsem (namespace_is_owned c ns sid)"
  "emits nonsem (run_helm c args tmo)"
  "emits nonsem (post_ready_checks h sid ns)"
  unfolding add_finalizer_def remove_finalizer_def ensure_namespace_def
    ensure_namespace_resources_def apply_resourcequota_def apply_limitrange_def
    apply_networkpolicy_default_deny_def apply_networkpolicy_allow_required_def
    create_or_patch_def ensure_admin_secret_def namespace_is_owned_def run_helm_def
    post_ready_checks_def get_store_def
  by (intro emits_intros; simp)+

lemma keeps_sem_value_stages:
  "keeps sem_value (reconcile_started c n e sid sns rel g)"
  "keeps sem_value (reconcile_gated c n h sid sns host rel g)"
  "keeps sem_value (reconcile_failed c n sns rel g ex)"
  unfolding reconcile_started_def reconcile_gated_def reconcile_failed_def
  by (intro keeps_intros)+

lemma emits_nonsem_stages:
  "emits nonsem (reconcile_started c n e sid sns rel g)"
  "emits nonsem (reconcile_gated c n h sid sns host rel g)"
  "emits nonsem (reconcile_failed c n sns rel g ex)"
  unfolding reconcile_started_def reconcile_gated_def reconcile_failed_def
  by (intro emits_intros; simp)+


lemma emitsD: "emits P m \<Longrightarrow> m w = (r, w') \<Longrightarrow> \<exists>new. calls w' = calls w @ new \<and> list_all P new"
  by (auto simp: emits_def dest: spec[of _ w])

lemma filter_is_sem_nonsem: "list_all nonsem xs \<Longrightarrow> filter is_sem xs = []"
  by (induction xs) (auto simp: nonsem_def)

lemma new_calls_append: "calls w' = calls w @ xs \<Longrightarrow> new_calls w w' = xs"
  by (simp add: new_calls_def)

lemma reconcile_locked_sem:
  assumes "int (sem_value w1) < MAX_CONCURRENT_PROVISIONS c"
  shows "\<exists>new. calls (snd (reconcile_locked c n h sid sns host rel g w1)) = calls w1 @ new @ [SemRelease]
           \<and> list_all nonsem new
           \<and> sem_value (snd (reconcile_locked c n h sid sns host rel g w1)) = sem_value w1 + 1"
proof -
  let ?body = "catch_io (reconcile_gated c n h sid sns host rel g) (reconcile_failed c n sns rel g)"
  have k: "keeps sem_value ?body"
    by (intro keeps_intros keeps_sem_value_stages)
  have e: "emits nonsem ?body"
    by (intro emits_intros emits_nonsem_stages)
  obtain r w2 where b: "?body w1 = (r, w2)" by (cases "?body w1")
  from keepsD[OF k b] have s2: "sem_value w2 = sem_value w1" .
  from emitsD[OF e b] obtain new where new: "calls w2 = calls w1 @ new" "list_all nonsem new"
    by blast
  have "reconcile_locked c n h sid sns host rel g w1
          = (r, w2\<lparr>sem_value := sem_value w2 + 1, calls := calls w2 @ [SemRelease]\<rparr>)"
    using b s2 assms by (simp add: reconcile_locked_def finally_io_def sem_release_def)
  then show ?thesis using new s2 by auto
qed

subsection \<open>The concurrency gate\<close>

text \<open>
  Claim C5. Whatever the cluster and the installer answer, a call of \<open>reconcile_store\<close>
  that took a permit of the semaphore gives it back exactly once: the semaphore operations
  of the call are none, one acquisition that timed out, or one successful acquisition
  followed by one release, and the number of free permits after the call is the number
  before it. The semaphore is a bounded one, so its free permits never exceed its bound.
\<close>

theorem gate_released_once:
  assumes "int (sem_value w) \<le> MAX_CONCURRENT_PROVISIONS c"
  shows "sem_value (snd (reconcile_store c name namespace spec meta w)) = sem_value w
       \<and> filter is_sem (new_calls w (snd (reconcile_store c name namespace spec meta w)))
           \<in> {[], [SemAcquire (MAX_PROVISION_SECONDS c) False],
               [SemAcquire (MAX_PROVISION_SECONDS c) True, SemRelease]}"
proof (cases "namespace \<noteq> PLATFORM_NAMESPACE c")
  case True
  then show ?thesis
    by (simp add: reconcile_store_def seq_io_def bind_io_def trace_def return_io_def new_calls_def)
next
  case pf: False
  define engine where "engine = get_or ''woocommerce'' (sp_engine spec)"
  show ?thesis
  proof (cases "ENGINE_HANDLERS c engine")
    case None
    let ?m = "seq_io (patch_store_status c name (Some ''Failed'') (Some ''Failed'')
                      (Some (unsupported_engine engine))
                      [(''lastError'', Some (JStr (unsupported_engine engine)))] [])
              (raise_io (PermanentError (unsupported_engine engine)) :: (string \<times> string) list io)"
    have rs: "reconcile_store c name namespace spec meta = ?m"
      using pf None by (simp add: reconcile_store_def engine_def Let_def)
    have k: "keeps sem_value ?m" by (intro keeps_intros)
    have e: "emits nonsem ?m" by (intro emits_intros; simp)
    obtain r w' where m: "?m w = (r, w')" by (cases "?m w")
    from emitsD[OF e m] obtain new where "calls w' = calls w @ new" "list_all nonsem new" by blast
    then have "filter is_sem (new_calls w w') = []"
      by (simp add: new_calls_append filter_is_sem_nonsem)
    then show ?thesis using keepsD[OF k m] m rs by simp
  next
    case (Some handler)
    define store_id where "store_id = get_or name (sp_storeId spec)"
    define generation where "generation = get_or 0 (m_generation meta)"
    let ?sns = "store_namespace c store_id"
    let ?rel = "build_release_name handler store_id"
    let ?started = "reconcile_started c name engine store_id ?sns ?rel generation"
    let ?timeout = "seq_io (patch_store_status c name (Some ''Failed'') (Some ''Failed'')
                           (Some ''Provisioning lock timeout'')
                           [(''lastError'', Some (JStr ''Provisioning lock timeout''))] [])
                   (raise_io (TemporaryError ''Provisioning lock timeout'' 15) :: (string \<times> string) list io)"
    let ?locked = "reconcile_locked c name handler store_id ?sns (store_host c store_id) ?rel generation"
    have rs: "reconcile_store c name namespace spec meta =
          seq_io ?started (bind_io (sem_acquire (MAX_PROVISION_SECONDS c))
             (\<lambda>acquired. if \<not> acquired then ?timeout else ?locked))"
      using pf Some
      unfolding reconcile_store_def engine_def store_id_def generation_def Let_def by simp
    obtain r0 w0 where st: "?started w = (r0, w0)" by (cases "?started w")
    from keepsD[OF keeps_sem_value_stages(1) st] have s0: "sem_value w0 = sem_value w" .
    from emitsD[OF emits_nonsem_stages(1) st] obtain n0 where
      n0: "calls w0 = calls w @ n0" "list_all nonsem n0" by blast
    show ?thesis
    proof (cases r0)
      case (Inl e)
      then have "reconcile_store c name namespace spec meta w = (Inl e, w0)"
        using st by (simp add: rs seq_io_def bind_io_def)
      then show ?thesis using s0 n0 by (simp add: new_calls_append filter_is_sem_nonsem)
    next
      case (Inr u)
      show ?thesis
      proof (cases "0 < sem_value w0")
        case False
        let ?w1 = "w0\<lparr>calls := calls w0 @ [SemAcquire (MAX_PROVISION_SECONDS c) False]\<rparr>"
        have k: "keeps sem_value ?timeout" by (intro keeps_intros)
        have e: "emits nonsem ?timeout" by (intro emits_intros; simp)
        obtain r w' where m: "?timeout ?w1 = (r, w')" by (cases "?timeout ?w1")
        from emitsD[OF e m] obtain n1 where
          n1: "calls w' = calls ?w1 @ n1" "list_all nonsem n1" by blast
        have "reconcile_store c name namespace spec meta w = (r, w')"
          using st Inr False m by (simp add: rs seq_io_def bind_io_def sem_acquire_def)
        moreover have "sem_value w' = sem_value w" using keepsD[OF k m] s0 by simp
        moreover have "new_calls w w' = n0 @ [SemAcquire (MAX_PROVISION_SECONDS c) False] @ n1"
          using n0 n1 by (simp add: new_calls_def)
        ultimately show ?thesis using n0 n1 by (simp add: filter_is_sem_nonsem)
      next
        case True
        let ?w1 = "w0\<lparr>sem_value := sem_value w0 - 1,
                      calls := calls w0 @ [SemAcquire (MAX_PROVISION_SECONDS c) True]\<rparr>"
        have lt: "int (sem_value ?w1) < MAX_CONCURRENT_PROVISIONS c"
          using True s0 assms by simp
        from reconcile_locked_sem[OF lt, of name handler store_id ?sns "store_host c store_id" ?rel generation]
        obtain n1 where n1: "calls (snd (?locked ?w1)) = calls ?w1 @ n1 @ [SemRelease]"
          "list_all nonsem n1" "sem_value (snd (?locked ?w1)) = sem_value ?w1 + 1" by blast
        have run: "reconcile_store c name namespace spec meta w = ?locked ?w1"
          using st Inr True by (simp add: rs seq_io_def bind_io_def sem_acquire_def)
        have "sem_value (snd (?locked ?w1)) = sem_value w" using n1(3) True s0 by simp
        moreover have "new_calls w (snd (?locked ?w1))
            = n0 @ [SemAcquire (MAX_PROVISION_SECONDS c) True] @ n1 @ [SemRelease]"
          using n0 n1 by (simp add: new_calls_def)
        ultimately show ?thesis using n0 n1 run by (simp add: filter_is_sem_nonsem)
      qed
    qed
  qed
qed

theorem gate_released_once_witness:
  "int (sem_value example_world) \<le> MAX_CONCURRENT_PROVISIONS default_config
   \<and> sem_value (snd (reconcile_store default_config ''acme-1'' ''store-platform''
                         (so_spec example_store) \<lparr>m_generation = Some 1, m_deletionTimestamp = None\<rparr>
                         example_world))
       = sem_value example_world
   \<and> filter is_sem (new_calls example_world
         (snd (reconcile_store default_config ''acme-1'' ''store-platform''
                 (so_spec example_store) \<lparr>m_generation = Some 1, m_deletionTimestamp = None\<rparr>
                 example_world)))
       \<in> {[], [SemAcquire (MAX_PROVISION_SECONDS default_config) False],
           [SemAcquire (MAX_PROVISION_SECONDS default_config) True, SemRelease]}
   \<and> filter is_sem (new_calls example_world
         (snd (reconcile_store default_config ''acme-1'' ''store-platform''
                 (so_spec example_store) \<lparr>m_generation = Some 1, m_deletionTimestamp = None\<rparr>
                 example_world)))
       = [SemAcquire 900 True, SemRelease]"
proof -
  have h: "int (sem_value example_world) \<le> MAX_CONCURRENT_PROVISIONS default_config"
    by (simp add: example_world_def default_config_def)
  have e: "filter is_sem (new_calls example_world
         (snd (reconcile_store default_config ''acme-1'' ''store-platform''
                 (so_spec example_store) \<lparr>m_generation = Some 1, m_deletionTimestamp = None\<rparr>
                 example_world)))
       = [SemAcquire 900 True, SemRelease]"
    by (simp add: model_defs new_calls_def)
  show ?thesis
    using h e gate_released_once[OF h] by blast
qed

subsection \<open>The event history\<close>

lemma slice_from_neg: "0 < n \<Longrightarrow> slice_from (- n) xs = last_n (nat n) xs"
  by (auto simp: slice_from_def last_n_def nat_diff_distrib' intro!: arg_cong2[where f=drop])

lemma last_n_length: "length (last_n n xs) = min n (length xs)"
  by (auto simp: last_n_def)

lemma last_n_append: "last_n n (last_n n xs @ ys) = last_n n (xs @ ys)"
proof (cases "length xs \<le> n")
  case True
  then show ?thesis by (simp add: last_n_def)
next
  case False
  then have "length xs + length ys - (length xs - n + n) + (length xs - n)
               = length xs + length ys - n"
    by arith
  with False show ?thesis by (simp add: last_n_def)
qed

lemma append_event_last_n:
  "0 < MAX_STATUS_EVENTS c \<Longrightarrow>
   append_event c es ev = last_n (nat (MAX_STATUS_EVENTS c)) (es @ [ev])"
  by (simp add: append_event_def slice_from_neg)

lemma foldl_append_event:
  "0 < MAX_STATUS_EVENTS c \<Longrightarrow> evs \<noteq> [] \<Longrightarrow>
   foldl (append_event c) es evs = last_n (nat (MAX_STATUS_EVENTS c)) (es @ evs)"
proof (induction evs arbitrary: es rule: rev_induct)
  case Nil
  then show ?case by simp
next
  case (snoc x xs)
  show ?case
  proof (cases "xs = []")
    case True
    then show ?thesis using snoc.prems by (simp add: append_event_last_n)
  next
    case False
    then show ?thesis using snoc.prems snoc.IH[of es] last_n_append[of _ "es @ xs" "[x]"]
      by (simp add: append_event_last_n)
  qed
qed

lemma apply_set_fields_other:
  "k \<notin> fst ` set sf \<Longrightarrow> apply_set_fields sf cur k = cur k"
  unfolding apply_set_fields_def
  by (induction sf arbitrary: cur) (auto split: option.splits)

lemma apply_drop_fields_other:
  "k \<notin> set df \<Longrightarrow> apply_drop_fields df cur k = cur k"
  unfolding apply_drop_fields_def
  by (induction df arbitrary: cur) auto

lemma status_body_events:
  "truthy et \<Longrightarrow> ''events'' \<notin> fst ` set sf \<Longrightarrow> ''events'' \<notin> set df \<Longrightarrow>
   \<exists>ts. fst (status_body c cur ph et em sf df now n) ''events'' =
     Some (JEvents (append_event c (stored_events cur) (Event (get_or [] et) (get_or [] em) ts)))"
  by (auto simp: status_body_def Let_def stored_events_def
        apply_set_fields_other apply_drop_fields_other split: option.splits)



subsection \<open>Resume\<close>

text \<open>
  Claim C3. A resume event for a resource of the platform namespace whose status has phase
  \<open>Ready\<close> and an \<open>observedGeneration\<close> equal to the generation of its metadata
  returns at once: the handler gives \<open>None\<close> and the world, its trace included, is the
  one it started from.
\<close>

theorem resume_ready_is_noop:
  assumes "namespace = PLATFORM_NAMESPACE c"
    and "status ''phase'' = Some (JStr ''Ready'')"
    and "m_generation meta = Some g"
    and "status ''observedGeneration'' = Some (JInt g)"
  shows "on_resume c spec status name namespace meta w = (Inr None, w)"
  using assms by (simp add: on_resume_def return_io_def get_or_def)

theorem resume_ready_is_noop_witness:
  "''store-platform'' = PLATFORM_NAMESPACE default_config
   \<and> [''phase'' \<mapsto> JStr ''Ready'', ''observedGeneration'' \<mapsto> JInt 3] ''phase''
       = Some (JStr ''Ready'')
   \<and> m_generation \<lparr>m_generation = Some 3, m_deletionTimestamp = None\<rparr> = Some 3
   \<and> [''phase'' \<mapsto> JStr ''Ready'', ''observedGeneration'' \<mapsto> JInt 3] ''observedGeneration''
       = Some (JInt 3)
   \<and> on_resume default_config (so_spec example_store)
         [''phase'' \<mapsto> JStr ''Ready'', ''observedGeneration'' \<mapsto> JInt 3]
         ''acme-1'' ''store-platform'' \<lparr>m_generation = Some 3, m_deletionTimestamp = None\<rparr>
         example_world
       = (Inr None, example_world)"
proof -
  have h1: "''store-platform'' = PLATFORM_NAMESPACE default_config"
    by (simp add: default_config_def)
  have h2: "[''phase'' \<mapsto> JStr ''Ready'', ''observedGeneration'' \<mapsto> JInt 3] ''phase''
       = Some (JStr ''Ready'')" by simp
  have h3: "m_generation \<lparr>m_generation = Some 3, m_deletionTimestamp = None\<rparr> = Some 3"
    by simp
  have h4: "[''phase'' \<mapsto> JStr ''Ready'', ''observedGeneration'' \<mapsto> JInt 3]
       ''observedGeneration'' = Some (JInt 3)" by simp
  show ?thesis
    using h1 h2 h3 h4 resume_ready_is_noop[OF h1 h2 h3 h4] by blast
qed

subsection \<open>Unsupported engine\<close>

lemma finalizer_lists_update:
  "map_of al n = Some obj \<Longrightarrow> so_finalizers obj' = so_finalizers obj \<Longrightarrow>
   map (\<lambda>p. (fst p, so_finalizers (snd p))) (AList.update n obj' al)
     = map (\<lambda>p. (fst p, so_finalizers (snd p))) al"
  by (induction al) (auto split: if_splits)

lemma keeps_store_prims [keeps_intros]:
  "keeps namespaces (co_get_store n)" "keeps secrets (co_get_store n)"
  "keeps objects (co_get_store n)" "keeps finalizer_lists (co_get_store n)"
  "keeps namespaces (co_patch_store_status n b)" "keeps secrets (co_patch_store_status n b)"
  "keeps objects (co_patch_store_status n b)" "keeps finalizer_lists (co_patch_store_status n b)"
  "keeps namespaces (co_patch_store_finalizers n fs)" "keeps secrets (co_patch_store_finalizers n fs)"
  "keeps objects (co_patch_store_finalizers n fs)"
  unfolding co_get_store_def co_patch_store_status_def co_patch_store_finalizers_def
  by (rule keeps_api_call;
      auto simp: keeps_def finalizer_lists_def finalizer_lists_update split: option.splits)+

lemma keeps_more [keeps_intros]:
  "keeps secrets now_iso" "keeps objects now_iso"
  "keeps secrets (trace c)" "keeps objects (trace c)"
  by (simp_all add: keeps_def now_iso_def trace_def)

lemma keeps_patch_store_status [keeps_intros]:
  "keeps namespaces (patch_store_status c n ph et em sf df)"
  "keeps secrets (patch_store_status c n ph et em sf df)"
  "keeps objects (patch_store_status c n ph et em sf df)"
  "keeps finalizer_lists (patch_store_status c n ph et em sf df)"
  unfolding patch_store_status_def safe_patch_store_status_def get_store_def
  by (intro keeps_intros)+

lemma keeps_add_finalizer [keeps_intros]:
  "keeps namespaces (add_finalizer n)" "keeps secrets (add_finalizer n)"
  "keeps objects (add_finalizer n)"
  unfolding add_finalizer_def get_store_def
  by (intro keeps_intros)+

lemma status_body_phase:
  "ph \<noteq> [] \<Longrightarrow> ''phase'' \<notin> fst ` set sf \<Longrightarrow> ''phase'' \<notin> set df \<Longrightarrow>
   fst (status_body c cur (Some ph) et em sf df now n) ''phase'' = Some (JStr ph)"
  by (simp add: status_body_def Let_def apply_set_fields_other apply_drop_fields_other)

lemma status_body_field:
  "k \<noteq> ''createdAt'' \<Longrightarrow> k \<noteq> ''updatedAt'' \<Longrightarrow> k \<noteq> ''events'' \<Longrightarrow> k \<notin> set df \<Longrightarrow>
   fst (status_body c cur ph et em sf df now n) k
     = apply_set_fields sf (case ph of None \<Rightarrow> cur
          | Some p \<Rightarrow> if p \<noteq> [] then cur(''phase'' \<mapsto> JStr p) else cur) k"
  by (simp add: status_body_def Let_def apply_drop_fields_other)



subsection \<open>Lock timeout\<close>

lemma patch_store_status_success:
  assumes "map_of (stores w) name = Some obj" "faults w = []"
  shows "\<exists>w1 obj1. patch_store_status c name ph et em sf df w = (Inr (), w1)
     \<and> map_of (stores w1) name = Some obj1 \<and> faults w1 = [] \<and> sem_value w1 = sem_value w
     \<and> so_status obj1 = so_status obj ++ fst (status_body c (so_status obj) ph et em sf df
                                                 (now_readings w) (now_count w))
     \<and> so_finalizers obj1 = so_finalizers obj
     \<and> namespaces w1 = namespaces w \<and> secrets w1 = secrets w \<and> objects w1 = objects w
     \<and> procs w1 = procs w \<and> now_readings w1 = now_readings w
     \<and> calls w1 = calls w @ [GetStore name, PatchStoreStatus name]"
  using assms(2) by (simp add: patch_store_status_ok[OF assms] update_conv')

lemma add_finalizer_success:
  assumes "map_of (stores w) name = Some obj" "faults w = []"
  shows "\<exists>w1 obj1. add_finalizer name w = (Inr (), w1)
     \<and> map_of (stores w1) name = Some obj1 \<and> faults w1 = [] \<and> sem_value w1 = sem_value w
     \<and> so_status obj1 = so_status obj
     \<and> so_finalizers obj1 = (if FINALIZER \<in> set (so_finalizers obj) then so_finalizers obj
                               else so_finalizers obj @ [FINALIZER])
     \<and> namespaces w1 = namespaces w \<and> secrets w1 = secrets w \<and> objects w1 = objects w
     \<and> procs w1 = procs w \<and> now_readings w1 = now_readings w"
  using assms
  by (simp add: add_finalizer_def bind_io_def get_store_ok return_io_def Let_def
        co_patch_store_finalizers_def api_call_nofault update_conv')

lemma emits_store_calls:
  "emits is_store_call (patch_store_status c n ph et em sf df)"
  "emits is_store_call (add_finalizer n)"
  "emits is_store_call (reconcile_started c n e sid sns rel g)"
  unfolding reconcile_started_def add_finalizer_def get_store_def
  by (intro emits_intros; simp)+

lemma keeps_reconcile_started:
  "keeps namespaces (reconcile_started c n e sid sns rel g)"
  "keeps secrets (reconcile_started c n e sid sns rel g)"
  "keeps objects (reconcile_started c n e sid sns rel g)"
  unfolding reconcile_started_def
  by (intro keeps_intros)+

lemma store_call_not_sem: "list_all is_store_call xs \<Longrightarrow> SemAcquire t ok \<notin> set xs"
  by (auto simp: list_all_iff)

lemma store_call_or_sem: "list_all is_store_call xs \<Longrightarrow> list_all (\<lambda>c. is_store_call c \<or> is_sem c) xs"
  by (auto simp: list_all_iff)

lemma emits_mono: "emits P m \<Longrightarrow> (\<And>c. P c \<Longrightarrow> Q c) \<Longrightarrow> emits Q m"
  unfolding emits_def list_all_iff by metis

lemma emits_sem_release: "P SemRelease \<Longrightarrow> emits P (sem_release c)"
  by (simp add: emits_def sem_release_def)

lemma emits_reconcile_locked:
  "emits (\<lambda>c. nonsem c \<or> c = SemRelease) (reconcile_locked c n h sid sns host rel g)"
  unfolding reconcile_locked_def
  by (intro emits_finally emits_catch emits_sem_release
        emits_mono[OF emits_nonsem_stages(2)] emits_mono[OF emits_nonsem_stages(3)]) simp_all



subsection \<open>Admin credentials\<close>

lemma ensure_admin_secret_present:
  assumes "faults w = []" "secrets w (ns, ADMIN_SECRET_NAME c) = Some data"
    "data ''username'' = Some (Text u)" "data ''password'' = Some (Text p)" "u \<noteq> []" "p \<noteq> []"
  shows "ensure_admin_secret c ns sid w
           = (Inr (u, p), w\<lparr>calls := calls w @ [ReadSecret ns (ADMIN_SECRET_NAME c)]\<rparr>)"
  using assms
  by (simp add: ensure_admin_secret_def bind_io_def except_ApiException_def catch_io_def
        read_namespaced_secret_def api_call_nofault decode_utf8_def return_io_def)

lemma ensure_admin_secret_after:
  assumes "faults w = []" "ensure_admin_secret c ns sid w = (Inr (u, p), w1)"
  shows "faults w1 = [] \<and> (\<exists>data. secrets w1 (ns, ADMIN_SECRET_NAME c) = Some data
     \<and> data ''username'' = Some (Text u) \<and> data ''password'' = Some (Text p) \<and> u \<noteq> [] \<and> p \<noteq> [])"
  using assms
  apply (simp add: ensure_admin_secret_def bind_io_def except_ApiException_def catch_io_def
        read_namespaced_secret_def create_namespaced_secret_def patch_namespaced_secret_def
        api_call_nofault decode_utf8_def return_io_def raise_io_def seq_io_def Let_def
        rand_password_def not_found_def conflict_def
        split: option.splits secret_val.splits if_splits prod.splits sum.splits)
  apply (auto simp: map_add_def)
  done

lemma ensure_admin_secret_generates:
  assumes "faults w = []" "ensure_admin_secret c ns sid w = (r, w1)" "rng_count w1 \<noteq> rng_count w"
  shows "case secrets w (ns, ADMIN_SECRET_NAME c) of
           None \<Rightarrow> True
         | Some data \<Rightarrow> data ''username'' = None \<or> data ''password'' = None
                        \<or> data ''username'' = Some (Text []) \<or> data ''password'' = Some (Text [])"
  using assms
  by (auto simp: ensure_admin_secret_def bind_io_def except_ApiException_def catch_io_def
        read_namespaced_secret_def api_call_nofault decode_utf8_def return_io_def raise_io_def
        not_found_def
        split: option.splits secret_val.splits if_splits)

lemma ensure_admin_secret_issues:
  assumes "faults w = []" "namespaces w ns = Some labels" "secrets w (ns, ADMIN_SECRET_NAME c) = None"
  shows "\<exists>pw w1. ensure_admin_secret c ns sid w = (Inr (''admin'', pw), w1)
           \<and> length pw = 20 \<and> rng_count w1 = rng_count w + 20"
  using assms
  by (simp add: ensure_admin_secret_def bind_io_def except_ApiException_def catch_io_def
        read_namespaced_secret_def create_namespaced_secret_def
        api_call_nofault return_io_def raise_io_def seq_io_def Let_def
        rand_password_def not_found_def)

text \<open>
  Claim C6. While the cluster answers: where the admin secret of a tenant namespace holds a
  non-empty username and a non-empty password, \<open>ensure_admin_secret\<close> returns that pair
  and does nothing but the read; whenever a call returns a pair, the next call on the
  resulting world returns the same pair and again only reads; and a password is drawn from
  the random source only if the secret is missing, or one of the two fields is missing or
  empty.
\<close>

theorem credentials_stable:
  assumes "faults w = []"
  shows "(\<forall>data u p.
            secrets w (ns, ADMIN_SECRET_NAME c) = Some data
          \<and> data ''username'' = Some (Text u) \<and> data ''password'' = Some (Text p)
          \<and> u \<noteq> [] \<and> p \<noteq> [] \<longrightarrow>
            ensure_admin_secret c ns sid w
              = (Inr (u, p), w\<lparr>calls := calls w @ [ReadSecret ns (ADMIN_SECRET_NAME c)]\<rparr>))
       \<and> (\<forall>u p w1.
            ensure_admin_secret c ns sid w = (Inr (u, p), w1) \<longrightarrow>
            ensure_admin_secret c ns sid w1
              = (Inr (u, p), w1\<lparr>calls := calls w1 @ [ReadSecret ns (ADMIN_SECRET_NAME c)]\<rparr>))
       \<and> (\<forall>r w1.
            ensure_admin_secret c ns sid w = (r, w1) \<and> rng_count w1 \<noteq> rng_count w \<longrightarrow>
            (case secrets w (ns, ADMIN_SECRET_NAME c) of
               None \<Rightarrow> True
             | Some data \<Rightarrow> data ''username'' = None \<or> data ''password'' = None
                        \<or> data ''username'' = Some (Text []) \<or> data ''password'' = Some (Text [])))"
proof (intro conjI allI impI)
  fix data u p
  assume "secrets w (ns, ADMIN_SECRET_NAME c) = Some data
          \<and> data ''username'' = Some (Text u) \<and> data ''password'' = Some (Text p)
          \<and> u \<noteq> [] \<and> p \<noteq> []"
  then show "ensure_admin_secret c ns sid w
              = (Inr (u, p), w\<lparr>calls := calls w @ [ReadSecret ns (ADMIN_SECRET_NAME c)]\<rparr>)"
    using ensure_admin_secret_present[OF assms] by blast
next
  fix u p w1
  assume a: "ensure_admin_secret c ns sid w = (Inr (u, p), w1)"
  from ensure_admin_secret_after[OF assms a] obtain data where
    d: "faults w1 = []" "secrets w1 (ns, ADMIN_SECRET_NAME c) = Some data"
       "data ''username'' = Some (Text u)" "data ''password'' = Some (Text p)" "u \<noteq> []" "p \<noteq> []"
    by blast
  show "ensure_admin_secret c ns sid w1
          = (Inr (u, p), w1\<lparr>calls := calls w1 @ [ReadSecret ns (ADMIN_SECRET_NAME c)]\<rparr>)"
    by (rule ensure_admin_secret_present[OF d])
next
  fix r w1
  assume "ensure_admin_secret c ns sid w = (r, w1) \<and> rng_count w1 \<noteq> rng_count w"
  then show "case secrets w (ns, ADMIN_SECRET_NAME c) of
               None \<Rightarrow> True
             | Some data \<Rightarrow> data ''username'' = None \<or> data ''password'' = None
                        \<or> data ''username'' = Some (Text []) \<or> data ''password'' = Some (Text [])"
    using ensure_admin_secret_generates[OF assms] by blast
qed

theorem credentials_stable_witness:
  "faults tenant_world = []
   \<and> secrets tenant_world (''store-acme-1'', ADMIN_SECRET_NAME default_config)
       = Some [''username'' \<mapsto> Text ''admin'', ''password'' \<mapsto> Text ''s3cret'']
   \<and> ensure_admin_secret default_config ''store-acme-1'' ''acme-1'' tenant_world
       = (Inr (''admin'', ''s3cret''),
          tenant_world\<lparr>calls := calls tenant_world @ [ReadSecret ''store-acme-1'' ''store-admin'']\<rparr>)
   \<and> ensure_admin_secret default_config ''store-acme-1'' ''acme-1''
         (tenant_world\<lparr>calls := calls tenant_world @ [ReadSecret ''store-acme-1'' ''store-admin'']\<rparr>)
       = (Inr (''admin'', ''s3cret''),
          tenant_world\<lparr>calls := calls tenant_world
             @ [ReadSecret ''store-acme-1'' ''store-admin'', ReadSecret ''store-acme-1'' ''store-admin'']\<rparr>)
   \<and> faults fresh_tenant_world = []
   \<and> secrets fresh_tenant_world (''store-acme-1'', ADMIN_SECRET_NAME default_config) = None
   \<and> (\<exists>pw w1.
         ensure_admin_secret default_config ''store-acme-1'' ''acme-1'' fresh_tenant_world
           = (Inr (''admin'', pw), w1)
       \<and> rng_count w1 \<noteq> rng_count fresh_tenant_world
       \<and> ensure_admin_secret default_config ''store-acme-1'' ''acme-1'' w1
           = (Inr (''admin'', pw),
              w1\<lparr>calls := calls w1 @ [ReadSecret ''store-acme-1'' ''store-admin'']\<rparr>))"
proof -
  let ?A = "ADMIN_SECRET_NAME default_config"
  have A: "?A = ''store-admin''" by (simp add: default_config_def)
  have h: "faults tenant_world = []"
    by (simp add: tenant_world_def example_world_def)
  have s: "secrets tenant_world (''store-acme-1'', ?A)
       = Some [''username'' \<mapsto> Text ''admin'', ''password'' \<mapsto> Text ''s3cret'']"
    by (simp add: tenant_world_def A)
  note t = credentials_stable[OF h, of "''store-acme-1''" default_config "''acme-1''"]
  from t s have first:
    "ensure_admin_secret default_config ''store-acme-1'' ''acme-1'' tenant_world
       = (Inr (''admin'', ''s3cret''),
          tenant_world\<lparr>calls := calls tenant_world @ [ReadSecret ''store-acme-1'' ?A]\<rparr>)"
    by simp
  from t first have second:
    "ensure_admin_secret default_config ''store-acme-1'' ''acme-1''
         (tenant_world\<lparr>calls := calls tenant_world @ [ReadSecret ''store-acme-1'' ?A]\<rparr>)
       = (Inr (''admin'', ''s3cret''),
          tenant_world\<lparr>calls := calls tenant_world
             @ [ReadSecret ''store-acme-1'' ?A, ReadSecret ''store-acme-1'' ?A]\<rparr>)"
    by simp
  have hf: "faults fresh_tenant_world = []"
    by (simp add: fresh_tenant_world_def example_world_def)
  have sf: "secrets fresh_tenant_world (''store-acme-1'', ?A) = None"
    by (simp add: fresh_tenant_world_def example_world_def)
  have nf: "namespaces fresh_tenant_world ''store-acme-1'' = Some (ownership_labels ''acme-1'')"
    by (simp add: fresh_tenant_world_def)
  from ensure_admin_secret_issues[OF hf nf sf, of "''acme-1''"] obtain pw w1 where
    i: "ensure_admin_secret default_config ''store-acme-1'' ''acme-1'' fresh_tenant_world
          = (Inr (''admin'', pw), w1)" "rng_count w1 = rng_count fresh_tenant_world + 20"
    by blast
  note tf = credentials_stable[OF hf, of "''store-acme-1''" default_config "''acme-1''"]
  from tf i(1) have again:
    "ensure_admin_secret default_config ''store-acme-1'' ''acme-1'' w1
       = (Inr (''admin'', pw), w1\<lparr>calls := calls w1 @ [ReadSecret ''store-acme-1'' ?A]\<rparr>)"
    by blast
  show ?thesis
    using h s first second hf sf i again unfolding A by auto
qed

subsection \<open>Deletion\<close>

lemma api_call_answered:
  "faults w = None # fs \<Longrightarrow>
   api_call c answer w = answer (w\<lparr>calls := calls w @ [c], faults := fs\<rparr>)"
  by (simp add: api_call_def Let_def)

lemma api_call_faulted:
  "faults w = Some e # fs \<Longrightarrow>
   api_call c answer w = (Inl e, w\<lparr>calls := calls w @ [c], faults := fs\<rparr>)"
  by (simp add: api_call_def Let_def)

lemma delete_owned_namespace_cases:
  assumes "delete_owned_namespace c ns sid w = (r, w')"
  shows "(new_calls w w' = [] \<or> new_calls w w' = [ReadNamespace ns]
          \<or> (new_calls w w' = [ReadNamespace ns, DeleteNamespace ns] \<and> owns c w ns sid))
       \<and> (namespaces w' = namespaces w
          \<or> (owns c w ns sid \<and> namespaces w' = (namespaces w)(ns := None)))"
  using assms
  unfolding delete_owned_namespace_def namespace_is_owned_def owns_def new_calls_def
    bind_io_def except_ApiException_def catch_io_def return_io_def raise_io_def
    read_namespace_def delete_namespace_def api_call_def Let_def
  by (auto split: if_splits list.splits option.splits exn.splits prod.splits sum.splits)

lemma delete_owned_namespace_not_found:
  assumes "owns c w ns sid" "faults w = None # Some (ApiException 404 rs t) # fs"
  shows "delete_owned_namespace c ns sid w
           = (Inr (), w\<lparr>calls := calls w @ [ReadNamespace ns, DeleteNamespace ns], faults := fs\<rparr>)"
  using assms
  by (auto simp: delete_owned_namespace_def namespace_is_owned_def owns_def
        bind_io_def except_ApiException_def catch_io_def return_io_def raise_io_def
        read_namespace_def delete_namespace_def api_call_answered api_call_faulted
        split: option.splits)

lemma delete_owned_namespace_run:
  assumes "faults w = []"
  shows "\<exists>w'. delete_owned_namespace c ns sid w = (Inr (), w')
           \<and> stores w' = stores w \<and> faults w' = []
           \<and> namespaces w' = (if owns c w ns sid then (namespaces w)(ns := None)
                               else namespaces w)"
  using assms
  by (auto simp: delete_owned_namespace_def namespace_is_owned_def owns_def
        bind_io_def except_ApiException_def catch_io_def return_io_def raise_io_def
        read_namespace_def delete_namespace_def api_call_nofault not_found_def
        split: option.splits)

lemma delete_rel_refl: "delete_rel c ns sid w w"
  by (simp add: delete_rel_def)

lemma delete_rel_trans:
  assumes "delete_rel c ns sid w w1" "delete_rel c ns sid w1 w2"
  shows "delete_rel c ns sid w w2"
proof -
  from assms(1) obtain n1 where n1: "calls w1 = calls w @ n1"
    "\<forall>ns'. DeleteNamespace ns' \<in> set n1 \<longrightarrow> ns' = ns \<and> owns c w ns sid"
    and a: "namespaces w1 = namespaces w \<or> (owns c w ns sid \<and> namespaces w1 = (namespaces w)(ns := None))"
    by (auto simp: delete_rel_def)
  from assms(2) obtain n2 where n2: "calls w2 = calls w1 @ n2"
    "\<forall>ns'. DeleteNamespace ns' \<in> set n2 \<longrightarrow> ns' = ns \<and> owns c w1 ns sid"
    and b: "namespaces w2 = namespaces w1 \<or> (owns c w1 ns sid \<and> namespaces w2 = (namespaces w1)(ns := None))"
    by (auto simp: delete_rel_def)
  have o: "owns c w1 ns sid \<Longrightarrow> owns c w ns sid"
    using a by (auto simp: owns_def)
  have "calls w2 = calls w @ (n1 @ n2)" using n1 n2 by simp
  moreover have "\<forall>ns'. DeleteNamespace ns' \<in> set (n1 @ n2) \<longrightarrow> ns' = ns \<and> owns c w ns sid"
    using n1(2) n2(2) o by auto
  moreover have "namespaces w2 = namespaces w \<or> (owns c w ns sid \<and> namespaces w2 = (namespaces w)(ns := None))"
    using a b o by auto
  ultimately show ?thesis unfolding delete_rel_def by blast
qed

named_theorems steps_intros

lemma stepsD: "steps R m \<Longrightarrow> m w = (r, w') \<Longrightarrow> R w w'"
  by (auto simp: steps_def dest: spec[of _ w])

lemma steps_return [steps_intros]: "steps (delete_rel c ns sid) (return_io x)"
  by (simp add: steps_def return_io_def delete_rel_refl)

lemma steps_seq [steps_intros]:
  "steps (delete_rel c ns sid) m \<Longrightarrow> steps (delete_rel c ns sid) k \<Longrightarrow>
   steps (delete_rel c ns sid) (seq_io m k)"
  unfolding steps_def seq_io_def bind_io_def
  by (auto split: prod.splits sum.splits) (metis delete_rel_trans snd_conv)+

lemma steps_finally [steps_intros]:
  "steps (delete_rel c ns sid) m \<Longrightarrow> steps (delete_rel c ns sid) g \<Longrightarrow>
   steps (delete_rel c ns sid) (finally_io m g)"
  unfolding steps_def finally_io_def
  by (auto split: prod.splits sum.splits) (metis delete_rel_trans snd_conv)+

lemma steps_of_keeps_emits:
  assumes "keeps namespaces m" "emits (\<lambda>x. \<forall>ns'. x \<noteq> DeleteNamespace ns') m"
  shows "steps (delete_rel c ns sid) m"
  unfolding steps_def
proof
  fix w
  obtain r w' where m: "m w = (r, w')" by (cases "m w")
  from emitsD[OF assms(2) m] obtain new where "calls w' = calls w @ new"
    "list_all (\<lambda>x. \<forall>ns'. x \<noteq> DeleteNamespace ns') new" by blast
  then show "delete_rel c ns sid w (snd (m w))"
    using keepsD[OF assms(1) m] m by (auto simp: delete_rel_def list_all_iff)
qed

lemma steps_delete_owned_namespace:
  "steps (delete_rel c ns sid) (delete_owned_namespace c ns sid)"
  unfolding steps_def
proof
  fix w
  obtain r w' where m: "delete_owned_namespace c ns sid w = (r, w')"
    by (cases "delete_owned_namespace c ns sid w")
  have app: "\<exists>new. calls w' = calls w @ new"
    using emitsD[of "\<lambda>x. True" "delete_owned_namespace c ns sid", OF _ m]
    unfolding delete_owned_namespace_def namespace_is_owned_def
    by (auto intro!: emits_intros)
  then obtain new where new: "calls w' = calls w @ new" by blast
  then have nc: "new_calls w w' = new" by (simp add: new_calls_append)
  from delete_owned_namespace_cases[OF m] nc new
  show "delete_rel c ns sid w (snd (delete_owned_namespace c ns sid w))"
    unfolding delete_rel_def m by auto
qed

lemma keeps_namespaces_more [keeps_intros]:
  "keeps namespaces (subprocess_run cmd t)"
  "keeps namespaces (co_patch_store_finalizers n fs)"
  unfolding subprocess_run_def co_patch_store_finalizers_def
  by (rule keeps_api_call; auto simp: keeps_def split: option.splits list.splits)+

lemma keeps_namespaces_run_helm [keeps_intros]:
  "keeps namespaces (run_helm c args tmo)"
  "keeps namespaces (remove_finalizer n)"
  unfolding run_helm_def remove_finalizer_def get_store_def
  by (intro keeps_intros)+

lemma steps_patch_store_status:
  "steps (delete_rel c ns sid) (patch_store_status c' n ph et em sf df)"
  by (rule steps_of_keeps_emits) (intro keeps_intros, (intro emits_intros; simp))

lemma steps_helm_attempt:
  "steps (delete_rel c ns sid)
     (catch_io (bind_io (run_helm c' args tmo) (\<lambda>_. return_io ())) (\<lambda>e. return_io ()))"
  unfolding run_helm_def
  by (rule steps_of_keeps_emits) ((intro keeps_intros)+, (intro emits_intros; simp))

lemma steps_remove_finalizer:
  "steps (delete_rel c ns sid)
     (catch_io (remove_finalizer n) (\<lambda>e. trace (LogWarning (msg e))))"
  unfolding remove_finalizer_def get_store_def
  by (rule steps_of_keeps_emits) ((intro keeps_intros)+, (intro emits_intros; simp))

lemma steps_on_delete:
  "steps (delete_rel c (store_namespace c (get_or name (sp_storeId spec)))
            (get_or name (sp_storeId spec)))
     (on_delete c spec name namespace)"
proof (cases "namespace \<noteq> PLATFORM_NAMESPACE c")
  case True
  then show ?thesis by (simp add: on_delete_def steps_return)
next
  case False
  then show ?thesis
    unfolding on_delete_def Let_def
    by (simp only: if_False)
       (intro steps_finally steps_seq steps_patch_store_status steps_helm_attempt
          steps_delete_owned_namespace steps_remove_finalizer)
qed

lemma helm_attempt_ok:
  assumes "faults w = []"
  shows "\<exists>w'. catch_io (bind_io (run_helm c args tmo) (\<lambda>_. return_io ())) (\<lambda>e. return_io ()) w
               = (Inr (), w')
           \<and> stores w' = stores w \<and> faults w' = [] \<and> namespaces w' = namespaces w"
  using assms
  by (auto simp: run_helm_def catch_io_def bind_io_def return_io_def raise_io_def
        subprocess_run_def api_call_nofault Let_def split: list.splits)

lemma remove_finalizer_success:
  assumes "map_of (stores w) name = Some obj" "faults w = []"
  shows "\<exists>w1 obj1. remove_finalizer name w = (Inr (), w1)
     \<and> map_of (stores w1) name = Some obj1 \<and> faults w1 = []
     \<and> so_status obj1 = so_status obj \<and> FINALIZER \<notin> set (so_finalizers obj1)
     \<and> namespaces w1 = namespaces w"
  using assms
  by (simp add: remove_finalizer_def bind_io_def get_store_ok return_io_def Let_def
        except_ApiException_def catch_io_def
        co_patch_store_finalizers_def api_call_nofault update_conv')



subsection \<open>Defaults\<close>

named_theorems runs_intros

lemma runsD:
  "runs I m \<Longrightarrow> faults w = [] \<Longrightarrow> I (stores w) \<Longrightarrow> m w = (r, w') \<Longrightarrow>
   faults w' = [] \<and> I (stores w') \<and> (\<forall>msg. r \<noteq> Inl (PermanentError msg))"
  unfolding runs_def by (drule spec[of _ w]) simp

lemma runsI:
  "(\<And>w r w'. faults w = [] \<Longrightarrow> I (stores w) \<Longrightarrow> m w = (r, w') \<Longrightarrow>
      faults w' = [] \<and> I (stores w') \<and> (\<forall>msg. r \<noteq> Inl (PermanentError msg))) \<Longrightarrow>
   runs I m"
  unfolding runs_def by (metis prod.collapse)

lemma runs_return [runs_intros]: "runs I (return_io x)"
  by (simp add: runs_def return_io_def)

lemma runs_raise [runs_intros]: "(\<And>msg. e \<noteq> PermanentError msg) \<Longrightarrow> runs I (raise_io e)"
  by (simp add: runs_def raise_io_def)

lemma runs_bind [runs_intros]:
  assumes "runs I m" "\<And>x. runs I (k x)"
  shows "runs I (bind_io m k)"
proof (rule runsI)
  fix w r w'
  assume h: "faults w = []" "I (stores w)" "bind_io m k w = (r, w')"
  obtain r1 w1 where m: "m w = (r1, w1)" by (cases "m w")
  note a = runsD[OF assms(1) h(1,2) m]
  show "faults w' = [] \<and> I (stores w') \<and> (\<forall>msg. r \<noteq> Inl (PermanentError msg))"
  proof (cases r1)
    case (Inl e)
    then show ?thesis using h(3) m a by (auto simp: bind_io_def)
  next
    case (Inr x)
    then have "k x w1 = (r, w')" using h(3) m by (simp add: bind_io_def)
    from runsD[OF assms(2) _ _ this] a show ?thesis by simp
  qed
qed

lemma runs_seq [runs_intros]: "runs I m \<Longrightarrow> runs I k \<Longrightarrow> runs I (seq_io m k)"
  by (simp add: seq_io_def runs_bind)

lemma runs_catch [runs_intros]:
  assumes "runs I m" "\<And>e. (\<And>msg. e \<noteq> PermanentError msg) \<Longrightarrow> runs I (h e)"
  shows "runs I (catch_io m h)"
proof (rule runsI)
  fix w r w'
  assume a: "faults w = []" "I (stores w)" "catch_io m h w = (r, w')"
  obtain r1 w1 where m: "m w = (r1, w1)" by (cases "m w")
  note b = runsD[OF assms(1) a(1,2) m]
  show "faults w' = [] \<and> I (stores w') \<and> (\<forall>msg. r \<noteq> Inl (PermanentError msg))"
  proof (cases r1)
    case (Inr x)
    then show ?thesis using a(3) m b by (auto simp: catch_io_def)
  next
    case (Inl e)
    then have "h e w1 = (r, w')" using a(3) m by (simp add: catch_io_def)
    moreover have "runs I (h e)" using b Inl by (intro assms(2)) simp
    ultimately show ?thesis using runsD b by blast
  qed
qed

lemma runs_except [runs_intros]:
  assumes "runs I m" "\<And>st e. (\<And>msg. e \<noteq> PermanentError msg) \<Longrightarrow> runs I (h st e)"
  shows "runs I (except_ApiException m h)"
  unfolding except_ApiException_def
  by (rule runs_catch[OF assms(1)]) (auto split: exn.splits intro: runs_raise assms(2))

lemma runs_finally [runs_intros]:
  assumes "runs I m" "runs I g"
  shows "runs I (finally_io m g)"
proof (rule runsI)
  fix w r w'
  assume a: "faults w = []" "I (stores w)" "finally_io m g w = (r, w')"
  obtain r1 w1 where m: "m w = (r1, w1)" by (cases "m w")
  obtain r2 w2 where g: "g w1 = (r2, w2)" by (cases "g w1")
  note b = runsD[OF assms(1) a(1,2) m]
  from runsD[OF assms(2) _ _ g] b
  have c: "faults w2 = [] \<and> I (stores w2) \<and> (\<forall>msg. r2 \<noteq> Inl (PermanentError msg))" by simp
  show "faults w' = [] \<and> I (stores w') \<and> (\<forall>msg. r \<noteq> Inl (PermanentError msg))"
    using a(3) m g b c by (cases r2) (auto simp: finally_io_def)
qed

lemma runs_if [runs_intros]:
  "(b \<Longrightarrow> runs I m1) \<Longrightarrow> (\<not> b \<Longrightarrow> runs I m2) \<Longrightarrow> runs I (if b then m1 else m2)"
  by simp

lemma runs_case_option [runs_intros]:
  "runs I a \<Longrightarrow> (\<And>x. runs I (b x)) \<Longrightarrow> runs I (case v of None \<Rightarrow> a | Some x \<Rightarrow> b x)"
  by (cases v) simp_all

lemma runs_case_prod [runs_intros]:
  "(\<And>a b. runs I (g a b)) \<Longrightarrow> runs I (case p of (a, b) \<Rightarrow> g a b)"
  by (cases p) simp

lemma runs_Let [runs_intros]: "runs I (g v) \<Longrightarrow> runs I (Let v g)"
  by simp

lemma runs_api_call:
  assumes "keeps stores answer" "keeps faults answer"
    "\<And>w msg. fst (answer w) \<noteq> Inl (PermanentError msg)"
  shows "runs I (api_call c answer)"
proof (rule runsI)
  fix w r w'
  assume a: "faults w = []" "I (stores w)" "api_call c answer w = (r, w')"
  let ?w1 = "w\<lparr>calls := calls w @ [c]\<rparr>"
  have m: "answer ?w1 = (r, w')" using a by (simp add: api_call_nofault)
  from keepsD[OF assms(1) m] keepsD[OF assms(2) m] assms(3)[of ?w1] m a
  show "faults w' = [] \<and> I (stores w') \<and> (\<forall>msg. r \<noteq> Inl (PermanentError msg))"
    by simp
qed

lemma runs_prims [runs_intros]:
  "runs I (co_get_store n)"
  "runs I (read_namespace ns)"
  "runs I (patch_namespace ns ls)"
  "runs I (create_namespace ns ls)"
  "runs I (read_namespaced_secret n ns)"
  "runs I (create_namespaced_secret ns n sd)"
  "runs I (patch_namespaced_secret n ns sd)"
  "runs I (create_object k ns n)"
  "runs I (patch_object k ns n)"
  "runs I (subprocess_run cmd t)"
  unfolding co_get_store_def read_namespace_def patch_namespace_def create_namespace_def
    read_namespaced_secret_def create_namespaced_secret_def patch_namespaced_secret_def
    create_object_def patch_object_def subprocess_run_def
  by (rule runs_api_call;
      auto simp: keeps_def not_found_def conflict_def split: option.splits list.splits)+

lemma runs_basic [runs_intros]:
  "runs I now_iso" "runs I (rand_password n)" "runs I (trace cl)" "runs I (decode_utf8 v)"
  "runs I (sem_acquire t)" "runs I (sem_release c)"
  by (auto simp: runs_def now_iso_def rand_password_def trace_def decode_utf8_def
        return_io_def raise_io_def sem_acquire_def sem_release_def split: secret_val.splits)

lemma runs_controller [runs_intros]:
  "runs I (ensure_namespace ns sid)"
  "runs I (ensure_namespace_resources ns)"
  "runs I (ensure_admin_secret c ns sid)"
  "runs I (run_helm c args tmo)"
  "runs I (post_ready_checks h sid ns)"
  unfolding ensure_namespace_def
    ensure_namespace_resources_def apply_resourcequota_def apply_limitrange_def
    apply_networkpolicy_default_deny_def apply_networkpolicy_allow_required_def
    create_or_patch_def ensure_admin_secret_def run_helm_def
    post_ready_checks_def
  by (intro runs_intros; simp)+


lemma runs_patch_store_status:
  assumes df: "''releaseName'' \<notin> set df" "''namespace'' \<notin> set df"
    and sf: "\<And>cur. cur ''releaseName'' = Some (JStr rel) \<Longrightarrow>
                  apply_set_fields sf cur ''releaseName'' = Some (JStr rel)"
            "\<And>cur. cur ''namespace'' = Some (JStr ns) \<Longrightarrow>
                  apply_set_fields sf cur ''namespace'' = Some (JStr ns)"
  shows "runs (provisioning name rel ns) (patch_store_status c name ph et em sf df)"
proof (rule runsI)
  fix w r w'
  assume a: "faults w = []" "provisioning name rel ns (stores w)"
    "patch_store_status c name ph et em sf df w = (r, w')"
  from a(2) obtain obj where obj: "map_of (stores w) name = Some obj"
    "FINALIZER \<in> set (so_finalizers obj)"
    "so_status obj ''releaseName'' = Some (JStr rel)"
    "so_status obj ''namespace'' = Some (JStr ns)"
    by (auto simp: provisioning_def)
  let ?b = "status_body c (so_status obj) ph et em sf df (now_readings w) (now_count w)"
  let ?cur = "case ph of None \<Rightarrow> so_status obj
          | Some p \<Rightarrow> if p \<noteq> [] then (so_status obj)(''phase'' \<mapsto> JStr p) else so_status obj"
  from patch_store_status_success[OF obj(1) a(1), of c ph et em sf df] a(3)
  obtain obj1 where o1: "r = Inr ()" "map_of (stores w') name = Some obj1" "faults w' = []"
    "so_status obj1 = so_status obj ++ fst ?b" "so_finalizers obj1 = so_finalizers obj"
    by auto
  have c1: "?cur ''releaseName'' = Some (JStr rel)" "?cur ''namespace'' = Some (JStr ns)"
    using obj by (auto split: option.splits)
  have "fst ?b ''releaseName'' = Some (JStr rel)"
    using df(1) sf(1)[of ?cur, OF c1(1)] by (simp add: status_body_field)
  moreover have "fst ?b ''namespace'' = Some (JStr ns)"
    using df(2) sf(2)[of ?cur, OF c1(2)] by (simp add: status_body_field)
  ultimately have "provisioning name rel ns (stores w')"
    using o1 obj(2) by (auto simp: provisioning_def map_add_def)
  then show "faults w' = [] \<and> provisioning name rel ns (stores w')
             \<and> (\<forall>msg. r \<noteq> Inl (PermanentError msg))"
    using o1 by simp
qed

lemma runs_stages:
  "runs (provisioning name rel sns) (reconcile_gated c name h sid sns host rel g)"
  "(\<And>msg. e \<noteq> PermanentError msg) \<Longrightarrow>
   runs (provisioning name rel sns) (reconcile_failed c name sns rel g e)"
  unfolding reconcile_gated_def reconcile_failed_def
  by (intro runs_intros runs_patch_store_status; simp add: apply_set_fields_def)+

lemma runs_reconcile_locked:
  "runs (provisioning name rel sns) (reconcile_locked c name h sid sns host rel g)"
  unfolding reconcile_locked_def
  by (intro runs_intros runs_stages)


lemma reconcile_store_absent:
  assumes "namespace = PLATFORM_NAMESPACE c" "sp_engine spec = None"
    and "sid = (case sp_storeId spec of None \<Rightarrow> name | Some s \<Rightarrow> s)"
  shows "reconcile_store c name namespace spec meta =
     seq_io (reconcile_started c name ''woocommerce'' sid (STORE_NS_PREFIX c @ sid)
               (''woocommerce-'' @ sid) (get_or 0 (m_generation meta)))
       (bind_io (sem_acquire (MAX_PROVISION_SECONDS c)) (\<lambda>acquired.
          if \<not> acquired then
            seq_io (patch_store_status c name (Some ''Failed'') (Some ''Failed'')
                      (Some ''Provisioning lock timeout'')
                      [(''lastError'', Some (JStr ''Provisioning lock timeout''))] [])
              (raise_io (TemporaryError ''Provisioning lock timeout'' 15))
          else
            reconcile_locked c name
              \<lparr>eh_name = ''woocommerce'', chart_path = CHART_WOOCOMMERCE c\<rparr>
              sid (STORE_NS_PREFIX c @ sid) (sid @ ''.'' @ BASE_DOMAIN c)
              (''woocommerce-'' @ sid) (get_or 0 (m_generation meta))))"
  using assms
  unfolding reconcile_store_def Let_def
  by (simp add: get_or_def ENGINE_HANDLERS_def store_namespace_def store_host_def
        build_release_name_def split: option.splits cong: if_cong)

lemma on_delete_absent:
  assumes "namespace = PLATFORM_NAMESPACE c" "sp_engine spec = None"
    and "sid = (case sp_storeId spec of None \<Rightarrow> name | Some s \<Rightarrow> s)"
  shows "on_delete c spec name namespace =
     finally_io
       (seq_io (patch_store_status c name (Some ''Deleting'') (Some ''Deleting'')
                  (Some (''Deleting '' @ ''woocommerce-'' @ sid))
                  [(''namespace'', Some (JStr (STORE_NS_PREFIX c @ sid))),
                   (''releaseName'', Some (JStr (''woocommerce-'' @ sid)))] [])
       (seq_io (catch_io
                  (bind_io (run_helm c [''uninstall'', ''woocommerce-'' @ sid, ''-n'',
                                        STORE_NS_PREFIX c @ sid] (Some 300))
                     (\<lambda>_. return_io ()))
                  (\<lambda>e. return_io ()))
       (seq_io (delete_owned_namespace c (STORE_NS_PREFIX c @ sid) sid)
          (patch_store_status c name (Some ''Deleted'') (Some ''Deleted'')
             (Some (''Deleted resources for '' @ sid)) [] []))))
       (catch_io (remove_finalizer name)
          (\<lambda>e. trace (LogWarning (''Finalizer removal warning: '' @ str_exn e))))"
  using assms
  unfolding on_delete_def Let_def
  by (simp add: get_or_def ENGINE_HANDLERS_def store_namespace_def
        build_release_name_def split: option.splits cong: if_cong)

lemma emits_sem_acquire: "P (SemAcquire t True) \<Longrightarrow> P (SemAcquire t False) \<Longrightarrow> emits P (sem_acquire t)"
  by (simp add: emits_def sem_acquire_def)

text \<open>Every installer call of a provisioning run installs one chart under one release.\<close>

lemma emits_install:
  fixes c :: config and h :: EngineHandler and sid sns :: string
  defines "P \<equiv> (\<lambda>cl. \<forall>cmd t. cl = SubprocessRun cmd t \<longrightarrow>
      take 7 cmd = [HELM_BIN c, ''upgrade'', ''--install'', eh_name h @ ''-'' @ sid,
                    chart_path h, ''-n'', sns])"
  shows "emits P (reconcile_started c name e sid sns rel g)"
    "emits P (reconcile_gated c name h sid sns host rel g)"
    "emits P (reconcile_failed c name sns rel g ex)"
    "emits P (reconcile_locked c name h sid sns host rel g)"
  unfolding reconcile_locked_def reconcile_started_def reconcile_gated_def reconcile_failed_def
    add_finalizer_def ensure_namespace_def
    ensure_namespace_resources_def apply_resourcequota_def apply_limitrange_def
    apply_networkpolicy_default_deny_def apply_networkpolicy_allow_required_def
    create_or_patch_def ensure_admin_secret_def run_helm_def
    post_ready_checks_def get_store_def
  by (intro emits_intros emits_sem_release;
      simp add: P_def build_helm_args_def build_release_name_def Let_def)+


lemma bind_io_InrE:
  assumes "bind_io m k w = (Inr v, w')"
  obtains x w1 where "m w = (Inr x, w1)" "k x w1 = (Inr v, w')"
  using assms by (auto simp: bind_io_def split: prod.splits sum.splits)

lemma seq_io_InrE:
  assumes "seq_io m k w = (Inr v, w')"
  obtains w1 where "m w = (Inr (), w1)" "k w1 = (Inr v, w')"
  using assms by (auto simp: seq_io_def bind_io_def split: prod.splits sum.splits)

lemma run_helm_call:
  "run_helm c args tmo w = (r, w') \<Longrightarrow>
   \<exists>t. calls w' = calls w @ [SubprocessRun (HELM_BIN c # args) t]"
  by (auto simp: run_helm_def subprocess_run_def api_call_def bind_io_def raise_io_def
        return_io_def Let_def split: list.splits option.splits if_splits)

lemma grows:
  "emits P m \<Longrightarrow> m w = (r, w') \<Longrightarrow> \<exists>new. calls w' = calls w @ new"
  by (blast dest: emitsD)

lemma reconcile_gated_returns:
  assumes "reconcile_gated c name h sid sns host rel g w = (Inr v, w')"
  shows "v = [(''namespace'', sns), (''host'', host), (''releaseName'', rel)]
       \<and> (\<exists>cmd t. SubprocessRun cmd t \<in> set (new_calls w w'))"
proof -
  from assms obtain w1 w2 w3 up w4 w5 out w6 w7 ra w8 w9 where
    s: "patch_store_status c name None (Some ''NamespaceReady'')
               (Some (''Ensuring namespace '' @ sns))
               [(''namespace'', Some (JStr sns))] [] w = (Inr (), w1)"
       "ensure_namespace sns sid w1 = (Inr (), w2)"
       "ensure_namespace_resources sns w2 = (Inr (), w3)"
       "ensure_admin_secret c sns sid w3 = (Inr up, w4)"
       "patch_store_status c name None (Some ''HelmInstallStarted'')
               (Some (''Installing/upgrading release '' @ rel)) [] [] w4 = (Inr (), w5)"
       "run_helm c (build_helm_args c h sid sns host (fst up) (snd up))
          (Some (MAX_PROVISION_SECONDS c + 60)) w5 = (Inr out, w6)"
       "post_ready_checks h sid sns w6 = (Inr (), w7)"
       "now_iso w7 = (Inr ra, w8)"
       "patch_store_status c name (Some ''Ready'') (Some ''Ready'')
               (Some (''Store ready at '' @ store_url c sid))
               [(''url'', Some (JStr (store_url c sid))),
                (''readyAt'', Some (JStr ra)),
                (''releaseName'', Some (JStr rel)),
                (''namespace'', Some (JStr sns)),
                (''observedGeneration'', Some (JInt g)),
                (''lastError'', None)]
               [''adminPassword'', ''adminUser''] w8 = (Inr (), w9)"
       "return_io [(''namespace'', sns), (''host'', host), (''releaseName'', rel)] w9
          = (Inr v, w')"
    unfolding reconcile_gated_def Let_def case_prod_beta
    by (elim seq_io_InrE bind_io_InrE) blast
  have v: "v = [(''namespace'', sns), (''host'', host), (''releaseName'', rel)]" "w' = w9"
    using s(10) by (simp_all add: return_io_def)
  from grows[OF emits_patch_store_status s(1), of "\<lambda>_. True"]
  obtain n1 where n1: "calls w1 = calls w @ n1" by auto
  from grows[OF emits_nonsem_controller(3) s(2)]
  obtain n2 where n2: "calls w2 = calls w1 @ n2" by auto
  from grows[OF emits_nonsem_controller(4) s(3)]
  obtain n3 where n3: "calls w3 = calls w2 @ n3" by auto
  from grows[OF emits_nonsem_controller(5) s(4)]
  obtain n4 where n4: "calls w4 = calls w3 @ n4" by auto
  from grows[OF emits_patch_store_status s(5), of "\<lambda>_. True"]
  obtain n5 where n5: "calls w5 = calls w4 @ n5" by auto
  from run_helm_call[OF s(6)]
  obtain t where n6: "calls w6 = calls w5 @ [SubprocessRun
      (HELM_BIN c # build_helm_args c h sid sns host (fst up) (snd up)) t]" by auto
  from grows[OF emits_nonsem_controller(8) s(7)]
  obtain n7 where n7: "calls w7 = calls w6 @ n7" by auto
  have n8: "calls w8 = calls w7" using s(8) by (auto simp: now_iso_def)
  from grows[OF emits_patch_store_status s(9), of "\<lambda>_. True"]
  obtain n9 where n9: "calls w9 = calls w8 @ n9" by auto
  have "new_calls w w' = n1 @ n2 @ n3 @ n4 @ n5 @ [SubprocessRun
      (HELM_BIN c # build_helm_args c h sid sns host (fst up) (snd up)) t] @ n7 @ n9"
    using n1 n2 n3 n4 n5 n6 n7 n8 n9 v(2) by (simp add: new_calls_def)
  then show ?thesis using v(1) by auto
qed


lemma reconcile_failed_raises:
  "\<exists>x w'. reconcile_failed c name sns rel g e w = (Inl x, w')"
  by (auto simp: reconcile_failed_def seq_io_def bind_io_def raise_io_def
        split: prod.splits sum.splits)

lemma reconcile_locked_returns:
  assumes "reconcile_locked c name h sid sns host rel g w = (Inr v, w')"
  shows "v = [(''namespace'', sns), (''host'', host), (''releaseName'', rel)]
       \<and> (\<exists>cmd t. SubprocessRun cmd t \<in> set (new_calls w w'))"
proof -
  let ?gated = "reconcile_gated c name h sid sns host rel g"
  let ?body = "catch_io ?gated (reconcile_failed c name sns rel g)"
  obtain r1 w1 where g: "?gated w = (r1, w1)" by (cases "?gated w")
  obtain r2 w2 where b: "?body w = (r2, w2)" by (cases "?body w")
  obtain r3 w3 where f: "sem_release c w2 = (r3, w3)" by (cases "sem_release c w2")
  have fin: "r3 = Inr () \<and> r2 = Inr v \<and> w3 = w'"
    using assms b f by (cases r3) (auto simp: reconcile_locked_def finally_io_def)
  have r1: "r1 = Inr v \<and> w1 = w2"
  proof (cases r1)
    case (Inr x)
    then show ?thesis using g b fin by (simp add: catch_io_def)
  next
    case (Inl e)
    then have "?body w = reconcile_failed c name sns rel g e w1"
      using g by (simp add: catch_io_def)
    then show ?thesis using reconcile_failed_raises[of c name sns rel g e w1] b fin by auto
  qed
  from reconcile_gated_returns[of c name h sid sns host rel g w v w1] g r1
  obtain cmd t where v: "v = [(''namespace'', sns), (''host'', host), (''releaseName'', rel)]"
    and cl: "SubprocessRun cmd t \<in> set (new_calls w w1)" by auto
  from grows[OF emits_nonsem_stages(2) g] obtain n1 where n1: "calls w1 = calls w @ n1" by auto
  from grows[OF emits_sem_release f, of "\<lambda>_. True"] obtain n2 where
    n2: "calls w3 = calls w2 @ n2" by auto
  have "new_calls w w' = n1 @ n2" "new_calls w w1 = n1"
    using n1 n2 r1 fin by (simp_all add: new_calls_def)
  then show ?thesis using v cl by auto
qed

lemma reconcile_absent_returns:
  assumes "namespace = PLATFORM_NAMESPACE c" "sp_engine spec = None"
    and "sid = (case sp_storeId spec of None \<Rightarrow> name | Some s \<Rightarrow> s)"
    and run: "reconcile_store c name namespace spec meta w = (Inr v, w')"
  shows "v = [(''namespace'', STORE_NS_PREFIX c @ sid), (''host'', sid @ ''.'' @ BASE_DOMAIN c),
              (''releaseName'', ''woocommerce-'' @ sid)]
       \<and> (\<exists>cmd t. SubprocessRun cmd t \<in> set (new_calls w w'))"
proof -
  let ?T = "MAX_PROVISION_SECONDS c"
  let ?sns = "STORE_NS_PREFIX c @ sid"
  let ?rel = "''woocommerce-'' @ sid"
  let ?g = "get_or 0 (m_generation meta)"
  let ?h = "\<lparr>eh_name = ''woocommerce'', chart_path = CHART_WOOCOMMERCE c\<rparr>"
  let ?started = "reconcile_started c name ''woocommerce'' sid ?sns ?rel ?g"
  let ?locked = "reconcile_locked c name ?h sid ?sns (sid @ ''.'' @ BASE_DOMAIN c) ?rel ?g"
  let ?timeout = "seq_io (patch_store_status c name (Some ''Failed'') (Some ''Failed'')
                      (Some ''Provisioning lock timeout'')
                      [(''lastError'', Some (JStr ''Provisioning lock timeout''))] [])
              (raise_io (TemporaryError ''Provisioning lock timeout'' 15)
                 :: (string \<times> string) list io)"
  from run[unfolded reconcile_store_absent[OF assms(1-3)]]
  obtain w1 ok w2 where s: "?started w = (Inr (), w1)" "sem_acquire ?T w1 = (Inr ok, w2)"
    "(if \<not> ok then ?timeout else ?locked) w2 = (Inr v, w')"
    by (elim seq_io_InrE bind_io_InrE) blast
  have "\<exists>x w3. ?timeout w2 = (Inl x, w3)"
    by (auto simp: seq_io_def bind_io_def raise_io_def split: prod.splits sum.splits)
  then have l: "?locked w2 = (Inr v, w')" using s(3) by (cases ok) auto
  from reconcile_locked_returns[OF l]
  obtain cmd t where v: "v = [(''namespace'', ?sns), (''host'', sid @ ''.'' @ BASE_DOMAIN c),
              (''releaseName'', ?rel)]"
    and cl: "SubprocessRun cmd t \<in> set (new_calls w2 w')" by auto
  from grows[OF emits_nonsem_stages(1) s(1)] obtain n1 where n1: "calls w1 = calls w @ n1" by auto
  from grows[OF emits_sem_acquire s(2), of "\<lambda>_. True"] obtain n2 where
    n2: "calls w2 = calls w1 @ n2" by auto
  from grows[OF emits_reconcile_locked l] obtain n3 where n3: "calls w' = calls w2 @ n3" by auto
  have "new_calls w w' = n1 @ n2 @ n3" "new_calls w2 w' = n3"
    using n1 n2 n3 by (simp_all add: new_calls_def)
  then show ?thesis using v cl by auto
qed


lemma reconcile_absent_installs:
  assumes "namespace = PLATFORM_NAMESPACE c" "sp_engine spec = None"
    and "sid = (case sp_storeId spec of None \<Rightarrow> name | Some s \<Rightarrow> s)"
    and run: "reconcile_store c name namespace spec meta w = (r, w')"
    and cl: "SubprocessRun cmd t \<in> set (new_calls w w')"
  shows "take 7 cmd = [HELM_BIN c, ''upgrade'', ''--install'', ''woocommerce-'' @ sid,
                       CHART_WOOCOMMERCE c, ''-n'', STORE_NS_PREFIX c @ sid]"
proof -
  let ?h = "\<lparr>eh_name = ''woocommerce'', chart_path = CHART_WOOCOMMERCE c\<rparr>"
  let ?P = "\<lambda>cl. \<forall>cmd t. cl = SubprocessRun cmd t \<longrightarrow>
      take 7 cmd = [HELM_BIN c, ''upgrade'', ''--install'', eh_name ?h @ ''-'' @ sid,
                    chart_path ?h, ''-n'', STORE_NS_PREFIX c @ sid]"
  have "emits ?P (reconcile_store c name namespace spec meta)"
    unfolding reconcile_store_absent[OF assms(1-3)]
    by (intro emits_intros emits_sem_acquire emits_install; simp)
  from emitsD[OF this run] obtain new where "calls w' = calls w @ new" "list_all ?P new"
    by blast
  then show ?thesis using cl by (auto simp: new_calls_def list_all_iff)
qed

lemma on_delete_absent_uninstalls:
  assumes "namespace = PLATFORM_NAMESPACE c" "sp_engine spec = None"
    and "sid = (case sp_storeId spec of None \<Rightarrow> name | Some s \<Rightarrow> s)"
    and run: "on_delete c spec name namespace w = (r, w')"
    and cl: "SubprocessRun cmd t \<in> set (new_calls w w')"
  shows "cmd = [HELM_BIN c, ''uninstall'', ''woocommerce-'' @ sid, ''-n'', STORE_NS_PREFIX c @ sid]
       \<and> t = 300"
proof -
  let ?P = "\<lambda>cl. \<forall>cmd t. cl = SubprocessRun cmd t \<longrightarrow>
      cmd = [HELM_BIN c, ''uninstall'', ''woocommerce-'' @ sid, ''-n'', STORE_NS_PREFIX c @ sid]
      \<and> t = 300"
  have "emits ?P (on_delete c spec name namespace)"
    unfolding on_delete_absent[OF assms(1-3)] delete_owned_namespace_def namespace_is_owned_def
      remove_finalizer_def run_helm_def get_store_def
    by (intro emits_intros; simp)
  from emitsD[OF this run] obtain new where "calls w' = calls w @ new" "list_all ?P new"
    by blast
  then show ?thesis using cl by (auto simp: new_calls_def list_all_iff)
qed

lemma reconcile_absent_answered:
  assumes "namespace = PLATFORM_NAMESPACE c" "sp_engine spec = None"
    and "sid = (case sp_storeId spec of None \<Rightarrow> name | Some s \<Rightarrow> s)"
    and h: "map_of (stores w) name = Some obj" "faults w = []"
  shows "\<exists>r w' obj' ok. reconcile_store c name namespace spec meta w = (r, w')
      \<and> (\<forall>msg. r \<noteq> Inl (PermanentError msg))
      \<and> SemAcquire (MAX_PROVISION_SECONDS c) ok \<in> set (new_calls w w')
      \<and> map_of (stores w') name = Some obj'
      \<and> FINALIZER \<in> set (so_finalizers obj')
      \<and> so_status obj' ''releaseName'' = Some (JStr (''woocommerce-'' @ sid))
      \<and> so_status obj' ''namespace'' = Some (JStr (STORE_NS_PREFIX c @ sid))"
proof -
  let ?T = "MAX_PROVISION_SECONDS c"
  let ?sns = "STORE_NS_PREFIX c @ sid"
  let ?rel = "''woocommerce-'' @ sid"
  let ?g = "get_or 0 (m_generation meta)"
  let ?h = "\<lparr>eh_name = ''woocommerce'', chart_path = CHART_WOOCOMMERCE c\<rparr>"
  let ?started = "reconcile_started c name ''woocommerce'' sid ?sns ?rel ?g"
  let ?locked = "reconcile_locked c name ?h sid ?sns (sid @ ''.'' @ BASE_DOMAIN c) ?rel ?g"
  let ?timeout = "seq_io (patch_store_status c name (Some ''Failed'') (Some ''Failed'')
                      (Some ''Provisioning lock timeout'')
                      [(''lastError'', Some (JStr ''Provisioning lock timeout''))] [])
              (raise_io (TemporaryError ''Provisioning lock timeout'' 15)
                 :: (string \<times> string) list io)"
  let ?sf = "[(''url'', Some (JStr (store_url c sid))),
           (''namespace'', Some (JStr ?sns)),
           (''releaseName'', Some (JStr ?rel)),
           (''observedGeneration'', Some (JInt ?g)),
           (''lastError'', None)]"
  let ?df = "[''adminPassword'', ''adminUser'']"
  note rs = reconcile_store_absent[OF assms(1-3), of meta]
  from add_finalizer_success[OF h] obtain w1 obj1 where
    a: "add_finalizer name w = (Inr (), w1)" "map_of (stores w1) name = Some obj1"
       "faults w1 = []" "FINALIZER \<in> set (so_finalizers obj1)"
    by (auto split: if_splits)
  let ?b = "status_body c (so_status obj1) (Some ''Provisioning'') (Some ''ProvisioningStarted'')
              (Some (''Starting reconcile for '' @ ''woocommerce'')) ?sf ?df
              (now_readings w1) (now_count w1)"
  from patch_store_status_success[OF a(2,3), of c "Some ''Provisioning''"
      "Some ''ProvisioningStarted''" "Some (''Starting reconcile for '' @ ''woocommerce'')" ?sf ?df]
  obtain w2 obj2 where
    b: "patch_store_status c name (Some ''Provisioning'') (Some ''ProvisioningStarted'')
          (Some (''Starting reconcile for '' @ ''woocommerce'')) ?sf ?df w1 = (Inr (), w2)"
       "map_of (stores w2) name = Some obj2" "faults w2 = []"
       "so_status obj2 = so_status obj1 ++ fst ?b" "so_finalizers obj2 = so_finalizers obj1"
    by blast
  have st: "?started w = (Inr (), w2)"
    using a(1) b(1) by (simp add: reconcile_started_def seq_io_def bind_io_def)
  have "fst ?b ''releaseName'' = Some (JStr ?rel)" "fst ?b ''namespace'' = Some (JStr ?sns)"
    by (simp_all add: status_body_field apply_set_fields_def)
  then have inv: "provisioning name ?rel ?sns (stores w2)"
    using b a(4) by (auto simp: provisioning_def map_add_def)
  from grows[OF emits_nonsem_stages(1) st] obtain n1 where n1: "calls w2 = calls w @ n1" by auto
  obtain ok w3 where sa: "sem_acquire ?T w2 = (Inr ok, w3)"
    "calls w3 = calls w2 @ [SemAcquire ?T ok]" "faults w3 = []" "stores w3 = stores w2"
    using b(3) by (cases "0 < sem_value w2") (auto simp: sem_acquire_def)
  let ?k = "if \<not> ok then ?timeout else ?locked"
  obtain r w' where k: "?k w3 = (r, w')" by (cases "?k w3")
  have rk: "runs (provisioning name ?rel ?sns) ?k"
    by (intro runs_intros runs_patch_store_status runs_reconcile_locked;
        simp add: apply_set_fields_def)
  from runsD[OF rk sa(3) _ k] inv sa(4)
  have post: "provisioning name ?rel ?sns (stores w')" "\<forall>msg. r \<noteq> Inl (PermanentError msg)"
    by simp_all
  have "emits (\<lambda>_. True) ?k"
    by (intro emits_intros emits_mono[OF emits_reconcile_locked]; simp)
  from grows[OF this k] obtain n3 where n3: "calls w' = calls w3 @ n3" by auto
  have run: "reconcile_store c name namespace spec meta w = (r, w')"
    using st sa(1) k by (simp add: rs seq_io_def bind_io_def)
  have nc: "new_calls w w' = n1 @ [SemAcquire ?T ok] @ n3"
    using n1 sa(2) n3 by (simp add: new_calls_def)
  from post(1) obtain obj' where "map_of (stores w') name = Some obj'"
    "FINALIZER \<in> set (so_finalizers obj')"
    "so_status obj' ''releaseName'' = Some (JStr ?rel)"
    "so_status obj' ''namespace'' = Some (JStr ?sns)"
    by (auto simp: provisioning_def)
  then show ?thesis using run post(2) nc by auto
qed


lemma helm_attempt_run:
  assumes "faults w = []" "t \<noteq> 0"
  shows "\<exists>w'. catch_io (bind_io (run_helm c args (Some t)) (\<lambda>_. return_io ())) (\<lambda>e. return_io ()) w
               = (Inr (), w')
           \<and> stores w' = stores w \<and> faults w' = []
           \<and> calls w' = calls w @ [SubprocessRun (HELM_BIN c # args) t]"
  using assms
  by (auto simp: run_helm_def catch_io_def bind_io_def return_io_def raise_io_def
        subprocess_run_def api_call_nofault Let_def split: list.splits)

lemma on_delete_absent_answered:
  assumes "namespace = PLATFORM_NAMESPACE c" "sp_engine spec = None"
    and "sid = (case sp_storeId spec of None \<Rightarrow> name | Some s \<Rightarrow> s)"
    and h: "map_of (stores w) name = Some obj" "faults w = []"
  shows "\<exists>w' obj'. on_delete c spec name namespace w = (Inr (), w')
      \<and> SubprocessRun [HELM_BIN c, ''uninstall'', ''woocommerce-'' @ sid, ''-n'',
                        STORE_NS_PREFIX c @ sid] 300 \<in> set (new_calls w w')
      \<and> map_of (stores w') name = Some obj'
      \<and> so_status obj' ''releaseName'' = Some (JStr (''woocommerce-'' @ sid))"
proof -
  let ?sns = "STORE_NS_PREFIX c @ sid"
  let ?rel = "''woocommerce-'' @ sid"
  let ?sfA = "[(''namespace'', Some (JStr ?sns)), (''releaseName'', Some (JStr ?rel))]"
  let ?A = "patch_store_status c name (Some ''Deleting'') (Some ''Deleting'')
              (Some (''Deleting '' @ ?rel)) ?sfA []"
  let ?B = "catch_io (bind_io (run_helm c [''uninstall'', ?rel, ''-n'', ?sns] (Some 300))
                        (\<lambda>_. return_io ())) (\<lambda>e. return_io ())"
  let ?D = "delete_owned_namespace c ?sns sid"
  let ?E = "patch_store_status c name (Some ''Deleted'') (Some ''Deleted'')
                (Some (''Deleted resources for '' @ sid)) [] []"
  let ?F = "catch_io (remove_finalizer name)
             (\<lambda>e. trace (LogWarning (''Finalizer removal warning: '' @ str_exn e)))"
  note od = on_delete_absent[OF assms(1-3)]
  let ?bA = "status_body c (so_status obj) (Some ''Deleting'') (Some ''Deleting'')
              (Some (''Deleting '' @ ?rel)) ?sfA [] (now_readings w) (now_count w)"
  from patch_store_status_success[OF h, of c "Some ''Deleting''" "Some ''Deleting''"
      "Some (''Deleting '' @ ?rel)" ?sfA "[]"]
  obtain w1 obj1 where
    A: "?A w = (Inr (), w1)" "map_of (stores w1) name = Some obj1" "faults w1 = []"
       "so_status obj1 = so_status obj ++ fst ?bA"
       "calls w1 = calls w @ [GetStore name, PatchStoreStatus name]"
    by blast
  have "fst ?bA ''releaseName'' = Some (JStr ?rel)"
    by (simp add: status_body_field apply_set_fields_def)
  then have r1: "so_status obj1 ''releaseName'' = Some (JStr ?rel)"
    using A(4) by (simp add: map_add_def)
  from helm_attempt_run[OF A(3), of 300 c "[''uninstall'', ?rel, ''-n'', ?sns]"]
  obtain w2 where
    B: "?B w1 = (Inr (), w2)" "stores w2 = stores w1" "faults w2 = []"
       "calls w2 = calls w1 @ [SubprocessRun [HELM_BIN c, ''uninstall'', ?rel, ''-n'', ?sns] 300]"
    by auto
  from delete_owned_namespace_run[OF B(3), of c ?sns sid] obtain w3 where
    D: "?D w2 = (Inr (), w3)" "stores w3 = stores w2" "faults w3 = []"
    by auto
  have "emits (\<lambda>_. True) ?D"
    unfolding delete_owned_namespace_def namespace_is_owned_def
    by (intro emits_intros; simp)
  from grows[OF this D(1)] obtain n3 where n3: "calls w3 = calls w2 @ n3" by auto
  have s3: "map_of (stores w3) name = Some obj1" using A(2) B(2) D(2) by simp
  let ?bE = "status_body c (so_status obj1) (Some ''Deleted'') (Some ''Deleted'')
                (Some (''Deleted resources for '' @ sid)) [] [] (now_readings w3) (now_count w3)"
  from patch_store_status_success[OF s3 D(3), of c "Some ''Deleted''" "Some ''Deleted''"
      "Some (''Deleted resources for '' @ sid)" "[]" "[]"]
  obtain w4 obj4 where
    E: "?E w3 = (Inr (), w4)" "map_of (stores w4) name = Some obj4" "faults w4 = []"
       "so_status obj4 = so_status obj1 ++ fst ?bE"
       "calls w4 = calls w3 @ [GetStore name, PatchStoreStatus name]"
    by blast
  have "fst ?bE ''releaseName'' = Some (JStr ?rel)"
    using r1 by (simp add: status_body_field apply_set_fields_def)
  then have r4: "so_status obj4 ''releaseName'' = Some (JStr ?rel)"
    using E(4) by (simp add: map_add_def)
  from remove_finalizer_success[OF E(2,3)] obtain w5 obj5 where
    F: "remove_finalizer name w4 = (Inr (), w5)" "map_of (stores w5) name = Some obj5"
       "so_status obj5 = so_status obj4"
    by blast
  from grows[OF emits_nonsem_controller(2) F(1)] obtain n5 where
    n5: "calls w5 = calls w4 @ n5" by auto
  have run: "on_delete c spec name namespace w = (Inr (), w5)"
    using A(1) B(1) D(1) E(1) F(1)
    by (simp add: od finally_io_def seq_io_def bind_io_def catch_io_def)
  have "new_calls w w5 = [GetStore name, PatchStoreStatus name]
          @ [SubprocessRun [HELM_BIN c, ''uninstall'', ?rel, ''-n'', ?sns] 300]
          @ n3 @ [GetStore name, PatchStoreStatus name] @ n5"
    using A(5) B(4) n3 E(5) n5 by (simp add: new_calls_def)
  then show ?thesis using run F(2,3) r4 by auto
qed



subsection \<open>Failures under the gate\<close>

lemma failed_status_fields:
  fixes e :: exn and release store_ns :: string and generation :: int and c :: config
    and cur :: "string \<rightharpoonup> jval" and now :: "nat \<Rightarrow> string" and n :: nat
  defines "sf \<equiv> [(''lastError'', Some (JStr (str_exn e))),
                (''releaseName'', Some (JStr release)),
                (''namespace'', Some (JStr store_ns)),
                (''observedGeneration'', Some (JInt generation))]"
  defines "b \<equiv> fst (status_body c cur (Some ''Failed'') (Some ''Failed'') (Some (str_exn e)) sf
                       [''adminPassword'', ''adminUser''] now n)"
  shows "b ''phase'' = Some (JStr ''Failed'')"
    and "b ''lastError'' = Some (JStr (str_exn e))"
    and "b ''releaseName'' = Some (JStr release)"
    and "b ''namespace'' = Some (JStr store_ns)"
    and "b ''observedGeneration'' = Some (JInt generation)"
    and "\<exists>ts. b ''events'' = Some (JEvents (append_event c (stored_events cur)
                                   (Event ''Failed'' (str_exn e) ts)))"
proof -
  show "b ''phase'' = Some (JStr ''Failed'')"
    unfolding b_def sf_def by (rule status_body_phase) simp_all
  show "b ''lastError'' = Some (JStr (str_exn e))"
    unfolding b_def sf_def by (simp add: status_body_field apply_set_fields_def)
  show "b ''releaseName'' = Some (JStr release)"
    unfolding b_def sf_def by (simp add: status_body_field apply_set_fields_def)
  show "b ''namespace'' = Some (JStr store_ns)"
    unfolding b_def sf_def by (simp add: status_body_field apply_set_fields_def)
  show "b ''observedGeneration'' = Some (JInt generation)"
    unfolding b_def sf_def by (simp add: status_body_field apply_set_fields_def)
  have "\<exists>ts. b ''events'' = Some (JEvents (append_event c (stored_events cur)
           (Event (get_or [] (Some ''Failed'')) (get_or [] (Some (str_exn e))) ts)))"
    unfolding b_def sf_def by (rule status_body_events) (simp_all add: truthy_def)
  then show "\<exists>ts. b ''events'' = Some (JEvents (append_event c (stored_events cur)
                                   (Event ''Failed'' (str_exn e) ts)))"
    by (simp add: get_or_def)
qed





subsection \<open>Idempotent create\<close>

lemma text_field_cases:
  "text_field v \<Longrightarrow> v = None \<or> (\<exists>s. v = Some (JStr s))"
  by (auto simp: text_field_def split: option.splits jval.splits)

lemma opt_str_typed: "text_field v \<Longrightarrow> opt_str k v = Inr (text_of v)"
  by (auto simp: text_field_def opt_str_def text_of_def split: option.splits jval.splits)

lemma to_store_resp_typed:
  assumes "status_typed (so_status item)"
  shows "to_store_resp a item = Inr (representation a item)"
proof -
  let ?st = "so_status item"
  have t: "text_field (?st ''phase'')" "text_field (?st ''url'')" "text_field (?st ''createdAt'')"
    "text_field (?st ''updatedAt'')" "text_field (?st ''lastError'')"
    "text_field (?st ''namespace'')" "text_field (?st ''releaseName'')"
    using assms by (simp_all add: status_typed_def)
  have ev: "(case ?st ''events'' of
                  None \<Rightarrow> Inr []
                | Some (JEvents es) \<Rightarrow> Inr (slice_to (EVENTS_LIMIT a) es)
                | Some (JStr s) \<Rightarrow> Inl (ValidationError ''events'')
                | Some (JInt i) \<Rightarrow> Inl (OtherException ''TypeError''))
            = (Inr (slice_to (EVENTS_LIMIT a) (stored_events ?st)) :: exn + event list)"
    using assms
    by (auto simp: status_typed_def stored_events_def slice_to_def split: option.splits jval.splits)
  have cr: "(if jtruthy (?st ''createdAt'') then opt_str ''createdAt'' (?st ''createdAt'')
                else Inr (so_creationTimestamp item))
            = Inr (case text_of (?st ''createdAt'') of
                        None \<Rightarrow> so_creationTimestamp item
                      | Some t \<Rightarrow> if t = [] then so_creationTimestamp item else Some t)"
    using text_field_cases[OF t(3)]
    by (auto simp: jtruthy_def opt_str_def text_of_def)
  show ?thesis
    unfolding to_store_resp_def Let_def ev cr
    by (simp add: bind_sum_def opt_str_typed t representation_def get_or_def truthy_def
          split: option.splits)
qed

text \<open>
  The claim as it is written, for every create request that names an existing resource,
  fails in two ways. For a caller whose bucket is full, the resource exists with the
  requested engine and the request is answered 429. For a resource whose status carries a
  number as \<open>lastError\<close>, the rate limit is passed, the engine is the requested one and
  the request fails in the validation of the response.
\<close>

theorem rate_limited_create_counterexample:
  "map_of (stores rate_limited_world) (rq_storeId example_create) = Some example_store
   \<and> sp_engine (so_spec example_store) = Some (rq_engine example_create)
   \<and> fst (create_store default_api_config example_create example_request rate_limited_world)
       = Inl (HTTPException 429 ''Rate limit exceeded for 10.0.0.1: 5 creates/60s'')
   \<and> map_of (stores illtyped_world) (rq_storeId example_create)
       = Some (example_store\<lparr>so_status := [''lastError'' \<mapsto> JInt 5]\<rparr>)
   \<and> fst (check_create_rate_limit default_api_config (client_ip example_request) illtyped_world)
       = Inr ()
   \<and> fst (create_store default_api_config example_create example_request illtyped_world)
       = Inl (ValidationError ''lastError'')"
  by (simp add: api_defs rate_limited_world_def illtyped_world_def)

text \<open>
  Claim C9, as the code has it. A create request that passes the rate limit and whose read
  of the requested name finds a resource is answered from that resource: when its engine is
  the requested one and its status is typed as the response declares, the request succeeds
  and returns the representation of the resource, which carries the requested engine; when
  its engine is another (or none), the request fails with a 409 whose detail names the
  storeId and the engine found. The same holds where the first read found nothing, the
  quotas let the request pass, the cluster refused the creation with 409 and the second
  read finds the resource. A read that the cluster answers finds the resource that exists
  under the requested name.
\<close>

theorem create_is_idempotent:
  assumes "check_create_rate_limit a (client_ip request) w = (Inr (), w1)"
  shows "(\<forall>ex w2.
            get_store_or_none (rq_storeId req) w1 = (Inr (Some ex), w2) \<longrightarrow>
              (sp_engine (so_spec ex) = Some (rq_engine req) \<and> status_typed (so_status ex) \<longrightarrow>
                 create_store a req request w = (Inr (representation a ex), w2)
               \<and> r_engine (representation a ex) = rq_engine req)
            \<and> (sp_engine (so_spec ex) \<noteq> Some (rq_engine req) \<longrightarrow>
                 create_store a req request w
                   = (Inl (HTTPException 409
                        (''StoreId '' @ [CHR 0x27] @ rq_storeId req @ [CHR 0x27]
                           @ '' already exists with engine '' @ [CHR 0x27]
                           @ (case sp_engine (so_spec ex) of None \<Rightarrow> ''None'' | Some e \<Rightarrow> e)
                           @ [CHR 0x27])), w2)))
       \<and> (\<forall>w2 items w3 w4 rs txt w5 ex w6.
            get_store_or_none (rq_storeId req) w1 = (Inr None, w2)
          \<and> list_store_objects w2 = (Inr items, w3)
          \<and> enforce_store_quotas a items (client_ip request) w3 = (Inr (), w4)
          \<and> co_create_store (rq_storeId req)
                \<lparr> sp_engine = Some (rq_engine req), sp_storeId = Some (rq_storeId req),
                  sp_requestedBy =
                    Some \<lparr> rb_ip = Some (client_ip request),
                           rb_userAgent =
                             Some (case headers request ''user-agent'' of
                                     None \<Rightarrow> ''unknown'' | Some ua \<Rightarrow> ua) \<rparr> \<rparr>
                w4 = (Inl (ApiException 409 rs txt), w5)
          \<and> get_store_or_none (rq_storeId req) w5 = (Inr (Some ex), w6) \<longrightarrow>
              (sp_engine (so_spec ex) = Some (rq_engine req) \<and> status_typed (so_status ex) \<longrightarrow>
                 create_store a req request w = (Inr (representation a ex), w6)
               \<and> r_engine (representation a ex) = rq_engine req)
            \<and> (sp_engine (so_spec ex) \<noteq> Some (rq_engine req) \<longrightarrow>
                 create_store a req request w
                   = (Inl (HTTPException 409
                        (''StoreId '' @ [CHR 0x27] @ rq_storeId req @ [CHR 0x27]
                           @ '' already exists with engine '' @ [CHR 0x27]
                           @ (case sp_engine (so_spec ex) of None \<Rightarrow> ''None'' | Some e \<Rightarrow> e)
                           @ [CHR 0x27])), w6)))
       \<and> (\<forall>ex. faults w1 = [] \<and> map_of (stores w1) (rq_storeId req) = Some ex \<longrightarrow>
            (\<exists>w2. get_store_or_none (rq_storeId req) w1 = (Inr (Some ex), w2)))"
proof -
  have ans: "answer_existing a req ex w2
      = (if sp_engine (so_spec ex) = Some (rq_engine req) then (to_store_resp a ex, w2)
         else (Inl (HTTPException 409
                        (''StoreId '' @ [CHR 0x27] @ rq_storeId req @ [CHR 0x27]
                           @ '' already exists with engine '' @ [CHR 0x27]
                           @ (case sp_engine (so_spec ex) of None \<Rightarrow> ''None'' | Some e \<Rightarrow> e)
                           @ [CHR 0x27])), w2))" for ex w2
    by (simp add: answer_existing_def Let_def raise_io_def already_exists_def get_or_def)
  have eng: "sp_engine (so_spec ex) = Some (rq_engine req) \<Longrightarrow>
             r_engine (representation a ex) = rq_engine req" for ex
    by (simp add: representation_def)
  have first: "create_store a req request w = answer_existing a req ex w2"
    if "get_store_or_none (rq_storeId req) w1 = (Inr (Some ex), w2)" for ex w2
    using assms that by (simp add: create_store_def seq_io_def bind_io_def Let_def)
  have race: "create_store a req request w = answer_existing a req ex w6"
    if "get_store_or_none (rq_storeId req) w1 = (Inr None, w2)"
       "list_store_objects w2 = (Inr items, w3)"
       "enforce_store_quotas a items (client_ip request) w3 = (Inr (), w4)"
       "co_create_store (rq_storeId req)
                \<lparr> sp_engine = Some (rq_engine req), sp_storeId = Some (rq_storeId req),
                  sp_requestedBy =
                    Some \<lparr> rb_ip = Some (client_ip request),
                           rb_userAgent =
                             Some (case headers request ''user-agent'' of
                                     None \<Rightarrow> ''unknown'' | Some ua \<Rightarrow> ua) \<rparr> \<rparr>
                w4 = (Inl (ApiException 409 rs tx), w5)"
       "get_store_or_none (rq_storeId req) w5 = (Inr (Some ex), w6)"
    for w2 items w3 w4 rs tx w5 ex w6
    using assms that
    by (simp add: create_store_def seq_io_def bind_io_def catch_io_def Let_def get_or_def)
  show ?thesis
    apply (intro conjI)
    subgoal using first by (auto simp: ans eng to_store_resp_typed)
    subgoal using race by (auto simp: ans eng to_store_resp_typed)
    subgoal
      by (auto simp: get_store_or_none_def except_ApiException_def catch_io_def bind_io_def
            co_get_store_def api_call_nofault return_io_def)
    done
qed

theorem create_is_idempotent_witness:
  "(\<exists>w1 w2.
      check_create_rate_limit default_api_config (client_ip example_request) example_world
        = (Inr (), w1)
    \<and> get_store_or_none (rq_storeId example_create) w1 = (Inr (Some example_store), w2)
    \<and> sp_engine (so_spec example_store) = Some (rq_engine example_create)
    \<and> status_typed (so_status example_store)
    \<and> create_store default_api_config example_create example_request example_world
        = (Inr (representation default_api_config example_store), w2)
    \<and> sp_engine (so_spec example_store) \<noteq> Some (rq_engine (example_create\<lparr>rq_engine := ''medusa''\<rparr>))
    \<and> create_store default_api_config (example_create\<lparr>rq_engine := ''medusa''\<rparr>)
          example_request example_world
        = (Inl (HTTPException 409
                (''StoreId '' @ [CHR 0x27] @ ''acme-1'' @ [CHR 0x27] @ '' already exists with engine ''
                   @ [CHR 0x27] @ ''woocommerce'' @ [CHR 0x27])), w2))
   \<and> (\<exists>w1 w2 w3 w4 w5 w6.
      check_create_rate_limit default_api_config (client_ip example_request) race_world
        = (Inr (), w1)
    \<and> get_store_or_none (rq_storeId example_create) w1 = (Inr None, w2)
    \<and> list_store_objects w2 = (Inr [example_store], w3)
    \<and> enforce_store_quotas default_api_config [example_store] (client_ip example_request) w3
        = (Inr (), w4)
    \<and> co_create_store (rq_storeId example_create)
          \<lparr> sp_engine = Some (rq_engine example_create),
            sp_storeId = Some (rq_storeId example_create),
            sp_requestedBy =
              Some \<lparr> rb_ip = Some (client_ip example_request),
                     rb_userAgent =
                       Some (case headers example_request ''user-agent'' of
                               None \<Rightarrow> ''unknown'' | Some ua \<Rightarrow> ua) \<rparr> \<rparr>
          w4 = (Inl (ApiException 409 ''Conflict'' ''(409) Reason: Conflict''), w5)
    \<and> get_store_or_none (rq_storeId example_create) w5 = (Inr (Some example_store), w6)
    \<and> create_store default_api_config example_create example_request race_world
        = (Inr (representation default_api_config example_store), w6))
   \<and> representation default_api_config example_store
       = \<lparr> r_storeId = ''acme-1'', r_engine = ''woocommerce'', r_phase = ''Provisioning'',
           r_url = None, r_createdAt = Some ''t0'', r_updatedAt = None, r_lastError = None,
           r_namespace = None, r_releaseName = None, r_events = [] \<rparr>"
proof -
  let ?a = default_api_config
  let ?ip = "client_ip example_request"
  let ?sid = "rq_storeId example_create"
  let ?spec = "\<lparr> sp_engine = Some (rq_engine example_create),
            sp_storeId = Some (rq_storeId example_create),
            sp_requestedBy =
              Some \<lparr> rb_ip = Some (client_ip example_request),
                     rb_userAgent =
                       Some (case headers example_request ''user-agent'' of
                               None \<Rightarrow> ''unknown'' | Some ua \<Rightarrow> ua) \<rparr> \<rparr>"
  have eng: "sp_engine (so_spec example_store) = Some (rq_engine example_create)"
    "sp_engine (so_spec example_store) \<noteq> Some (rq_engine (example_create\<lparr>rq_engine := ''medusa''\<rparr>))"
    "sp_engine (so_spec example_store) = Some ''woocommerce''"
    "rq_storeId (example_create\<lparr>rq_engine := ''medusa''\<rparr>) = rq_storeId example_create"
    "rq_storeId example_create = ''acme-1''"
    "status_typed (so_status example_store)"
    by (simp_all add: example_store_def example_create_def status_typed_def text_field_def)
  have first: "\<exists>w1 w2.
      check_create_rate_limit ?a ?ip example_world = (Inr (), w1)
    \<and> get_store_or_none ?sid w1 = (Inr (Some example_store), w2)
    \<and> sp_engine (so_spec example_store) = Some (rq_engine example_create)
    \<and> status_typed (so_status example_store)
    \<and> create_store ?a example_create example_request example_world
        = (Inr (representation ?a example_store), w2)
    \<and> sp_engine (so_spec example_store) \<noteq> Some (rq_engine (example_create\<lparr>rq_engine := ''medusa''\<rparr>))
    \<and> create_store ?a (example_create\<lparr>rq_engine := ''medusa''\<rparr>) example_request example_world
        = (Inl (HTTPException 409
                (''StoreId '' @ [CHR 0x27] @ ''acme-1'' @ [CHR 0x27] @ '' already exists with engine ''
                   @ [CHR 0x27] @ ''woocommerce'' @ [CHR 0x27])), w2)"
  proof -
    define w1 where "w1 = snd (check_create_rate_limit ?a ?ip example_world)"
    define w2 where "w2 = snd (get_store_or_none ?sid w1)"
    have "fst (check_create_rate_limit ?a ?ip example_world) = Inr ()"
      by (simp add: api_defs)
    then have h: "check_create_rate_limit ?a ?ip example_world = (Inr (), w1)"
      by (simp add: w1_def prod_eq_iff)
    have "fst (get_store_or_none ?sid w1) = Inr (Some example_store)"
      unfolding w1_def by (simp add: api_defs)
    then have g: "get_store_or_none ?sid w1 = (Inr (Some example_store), w2)"
      by (simp add: w2_def prod_eq_iff)
    note t1 = create_is_idempotent[OF h, of example_create]
    note t2 = create_is_idempotent[OF h, of "example_create\<lparr>rq_engine := ''medusa''\<rparr>"]
    have c1: "create_store ?a example_create example_request example_world
        = (Inr (representation ?a example_store), w2)"
      using t1 g eng by auto
    have c2: "create_store ?a (example_create\<lparr>rq_engine := ''medusa''\<rparr>) example_request example_world
        = (Inl (HTTPException 409
                (''StoreId '' @ [CHR 0x27] @ ''acme-1'' @ [CHR 0x27] @ '' already exists with engine ''
                   @ [CHR 0x27] @ ''woocommerce'' @ [CHR 0x27])), w2)"
      using t2 g eng by auto
    show ?thesis using h g eng c1 c2 by blast
  qed
  have race: "\<exists>w1 w2 w3 w4 w5 w6.
      check_create_rate_limit ?a ?ip race_world = (Inr (), w1)
    \<and> get_store_or_none ?sid w1 = (Inr None, w2)
    \<and> list_store_objects w2 = (Inr [example_store], w3)
    \<and> enforce_store_quotas ?a [example_store] ?ip w3 = (Inr (), w4)
    \<and> co_create_store ?sid ?spec w4
        = (Inl (ApiException 409 ''Conflict'' ''(409) Reason: Conflict''), w5)
    \<and> get_store_or_none ?sid w5 = (Inr (Some example_store), w6)
    \<and> create_store ?a example_create example_request race_world
        = (Inr (representation ?a example_store), w6)"
  proof -
    define w1 where "w1 = snd (check_create_rate_limit ?a ?ip race_world)"
    define w2 where "w2 = snd (get_store_or_none ?sid w1)"
    define w3 where "w3 = snd (list_store_objects w2)"
    define w4 where "w4 = snd (enforce_store_quotas ?a [example_store] ?ip w3)"
    define w5 where "w5 = snd (co_create_store ?sid ?spec w4)"
    define w6 where "w6 = snd (get_store_or_none ?sid w5)"
    have "fst (check_create_rate_limit ?a ?ip race_world) = Inr ()"
      by (simp add: api_defs race_world_def)
    then have h: "check_create_rate_limit ?a ?ip race_world = (Inr (), w1)"
      by (simp add: w1_def prod_eq_iff)
    have "fst (get_store_or_none ?sid w1) = Inr None"
      unfolding w1_def by (simp add: api_defs race_world_def)
    then have g1: "get_store_or_none ?sid w1 = (Inr None, w2)"
      by (simp add: w2_def prod_eq_iff)
    have "fst (list_store_objects w2) = Inr [example_store]"
      unfolding w2_def w1_def by (simp add: api_defs race_world_def)
    then have l: "list_store_objects w2 = (Inr [example_store], w3)"
      by (simp add: w3_def prod_eq_iff)
    have "fst (enforce_store_quotas ?a [example_store] ?ip w3) = Inr ()"
      by (simp add: api_defs)
    then have q: "enforce_store_quotas ?a [example_store] ?ip w3 = (Inr (), w4)"
      by (simp add: w4_def prod_eq_iff)
    have "fst (co_create_store ?sid ?spec w4)
            = Inl (ApiException 409 ''Conflict'' ''(409) Reason: Conflict'')"
      unfolding w4_def w3_def w2_def w1_def by (simp add: api_defs race_world_def)
    then have cr: "co_create_store ?sid ?spec w4
        = (Inl (ApiException 409 ''Conflict'' ''(409) Reason: Conflict''), w5)"
      by (simp add: w5_def prod_eq_iff)
    have "fst (get_store_or_none ?sid w5) = Inr (Some example_store)"
      unfolding w5_def w4_def w3_def w2_def w1_def by (simp add: api_defs race_world_def)
    then have g2: "get_store_or_none ?sid w5 = (Inr (Some example_store), w6)"
      by (simp add: w6_def prod_eq_iff)
    note t = create_is_idempotent[OF h, of example_create]
    have "create_store ?a example_create example_request race_world
        = (Inr (representation ?a example_store), w6)"
      using t g1 l q cr g2 eng by auto
    then show ?thesis using h g1 l q cr g2 by blast
  qed
  have resp: "representation ?a example_store
       = \<lparr> r_storeId = ''acme-1'', r_engine = ''woocommerce'', r_phase = ''Provisioning'',
           r_url = None, r_createdAt = Some ''t0'', r_updatedAt = None, r_lastError = None,
           r_namespace = None, r_releaseName = None, r_events = [] \<rparr>"
    by (simp add: representation_def example_store_def text_of_def stored_events_def slice_to_def)
  show ?thesis using first race resp by blast
qed

end
